theory Spec2Isabelle
  imports Complex_Main "HOL-Library.Log_Nat"
begin

section \<open>The ride camera of the roller-coaster builder\<close>

text \<open>
  A shallow embedding of \<^verbatim>\<open>client/src/components/game/RideCamera.tsx\<close>.

  In the frame callback JavaScript numbers are modelled as mathematical reals: every
  value is finite and no operation rounds or overflows. The one operation of the
  callback that leaves the finite numbers on finite operands, the division by a curve
  length of zero, is a branch of the model (\<open>NonFinite\<close>).

  \<open>firstPeakT\<close> is modelled in the arithmetic of doubles, because rounding decides how
  many samples its loop visits and which values it returns: its literals are the doubles
  they denote, and its loop variable is the double that repeated addition gives. The
  values of the curve are taken as they come. \<open>-Infinity\<close>, the initial value of the local
  \<open>maxHeight\<close>, is \<open>None\<close>.

  The curve (a \<open>THREE.CatmullRomCurve3\<close> built by \<open>getTrackCurve\<close> of \<open>./Track\<close>), the
  tilt lookup \<open>getTrackTiltAtProgress\<close> and the store \<open>useRollerCoaster\<close> are not part
  of the file: the curve is a record of its three methods, the two functions of
  \<open>./Track\<close> are parameters, the values read from the store are a record, and the calls
  made to the store are appended to a trace.
\<close>

subsection \<open>Vectors (the methods of \<open>THREE.Vector3\<close> the component calls)\<close>

record Vector3 =
  vx :: real
  vy :: real
  vz :: real

definition crossVectors :: "Vector3 \<Rightarrow> Vector3 \<Rightarrow> Vector3" where
  "crossVectors a b =
     \<lparr>vx = vy a * vz b - vz a * vy b,
      vy = vz a * vx b - vx a * vz b,
      vz = vx a * vy b - vy a * vx b\<rparr>"

definition dot :: "Vector3 \<Rightarrow> Vector3 \<Rightarrow> real" where
  "dot a b = vx a * vx b + vy a * vy b + vz a * vz b"

definition lengthSq :: "Vector3 \<Rightarrow> real" where
  "lengthSq v = vx v * vx v + vy v * vy v + vz v * vz v"

definition vlength :: "Vector3 \<Rightarrow> real" where
  "vlength v = sqrt (vx v * vx v + vy v * vy v + vz v * vz v)"

definition multiplyScalar :: "Vector3 \<Rightarrow> real \<Rightarrow> Vector3" where
  "multiplyScalar v s = \<lparr>vx = vx v * s, vy = vy v * s, vz = vz v * s\<rparr>"

definition divideScalar :: "Vector3 \<Rightarrow> real \<Rightarrow> Vector3" where
  "divideScalar v s = multiplyScalar v (1 / s)"

text \<open>\<^verbatim>\<open>normalize() { return this.divideScalar( this.length() || 1 ); }\<close>\<close>

definition normalizeV :: "Vector3 \<Rightarrow> Vector3" where
  "normalizeV v = divideScalar v (if vlength v = 0 then 1 else vlength v)"

definition addV :: "Vector3 \<Rightarrow> Vector3 \<Rightarrow> Vector3" where
  "addV a b = \<lparr>vx = vx a + vx b, vy = vy a + vy b, vz = vz a + vz b\<rparr>"

text \<open>\<^verbatim>\<open>lerp( v, alpha ) { this.x += ( v.x - this.x ) * alpha; ... }\<close>\<close>

definition lerp :: "Vector3 \<Rightarrow> Vector3 \<Rightarrow> real \<Rightarrow> Vector3" where
  "lerp p v alpha =
     \<lparr>vx = vx p + (vx v - vx p) * alpha,
      vy = vy p + (vy v - vy p) * alpha,
      vz = vz p + (vz v - vz p) * alpha\<rparr>"

definition distanceTo :: "Vector3 \<Rightarrow> Vector3 \<Rightarrow> real" where
  "distanceTo a b =
     sqrt ((vx a - vx b) * (vx a - vx b) + (vy a - vy b) * (vy a - vy b)
           + (vz a - vz b) * (vz a - vz b))"

text \<open>
  \<open>applyAxisAngle(axis, angle)\<close> builds the quaternion
  \<open>(axis * sin (angle / 2), cos (angle / 2))\<close> and applies it:
  \<open>t = 2 * cross(q.xyz, v)\<close>, result \<open>v + q.w * t + cross(q.xyz, t)\<close>.
\<close>

definition applyAxisAngle :: "Vector3 \<Rightarrow> Vector3 \<Rightarrow> real \<Rightarrow> Vector3" where
  "applyAxisAngle v axis angle =
     (let halfAngle = angle / 2;
          s = sin halfAngle;
          qx = vx axis * s; qy = vy axis * s; qz = vz axis * s;
          qw = cos halfAngle;
          tx = 2 * (qy * vz v - qz * vy v);
          ty = 2 * (qz * vx v - qx * vz v);
          tz = 2 * (qx * vy v - qy * vx v)
      in \<lparr>vx = vx v + qw * tx + qy * tz - qz * ty,
          vy = vy v + qw * ty + qz * tx - qx * tz,
          vz = vz v + qw * tz + qx * ty - qy * tx\<rparr>)"

subsection \<open>The curve, the track module and the store\<close>

record Curve =
  getPoint :: "real \<Rightarrow> Vector3"
  getTangent :: "real \<Rightarrow> Vector3"
  getLength :: real

record 'p Track =
  getTrackCurve :: "'p list \<Rightarrow> bool \<Rightarrow> Curve option"
  getTrackTiltAtProgress :: "'p list \<Rightarrow> real \<Rightarrow> bool \<Rightarrow> real"

record 'p Store =
  trackPoints :: "'p list"
  isRiding :: bool
  rideProgress :: real
  rideSpeed :: real
  isLooped :: bool
  hasChainLift :: bool

datatype StoreCall = SetRideProgress real | StopRide

text \<open>
  The refs of the component, the camera, and the calls made to the store so far.
  \<open>camera.lookAt(v)\<close> is recorded as the point looked at.
\<close>

record RideCameraState =
  curveRef :: "Curve option"
  previousCameraPos :: Vector3
  previousLookAt :: Vector3
  maxHeightReached :: real
  cameraPosition :: Vector3
  cameraLookAt :: Vector3
  storeCalls :: "StoreCall list"

datatype fault = NonFinite

subsection \<open>Double arithmetic, for \<open>firstPeakT\<close>\<close>

text \<open>
  A finite double is an integer multiple of \<open>2 ^ -1074\<close> with at most 53 significant bits.
  \<open>toDouble x\<close> is the double nearest to \<open>x\<close>, ties going to the even one: \<open>n\<close> is \<open>\<bar>x\<bar>\<close> in
  units of \<open>2 ^ -1074\<close>, \<open>s\<close> the number of bits of \<open>n\<close> beyond the 53 that are kept (none for a
  subnormal), and \<open>n\<close> is rounded to a multiple of \<open>2 ^ s\<close>. It is what a decimal literal
  denotes, and the result of an arithmetic operation is \<open>toDouble\<close> of the exact result.
  Overflow to \<open>Infinity\<close> (from \<open>2 ^ 1024\<close> on) is not modelled.
\<close>

definition rne :: "real \<Rightarrow> int" where
  "rne x =
     (let f = \<lfloor>x\<rfloor>; r = x - of_int f
      in if r < 1 / 2 then f else if r > 1 / 2 then f + 1 else if even f then f else f + 1)"

definition subnormalBits :: nat where
  "subnormalBits = 1074"

definition toDouble :: "real \<Rightarrow> real" where
  "toDouble x =
     (let n = \<bar>x\<bar> * 2 ^ subnormalBits;
          s = floorlog 2 (nat \<lfloor>n\<rfloor>) - 53
      in sgn x * (of_int (rne (n / 2 ^ s)) * 2 ^ s) / 2 ^ subnormalBits)"

subsection \<open>\<open>firstPeakT\<close> (lines 16 to 45)\<close>

text \<open>
  The header of the loop, \<open>for (let t = 0; t <= 0.5; t += 0.01)\<close>: the body does not
  assign \<open>t\<close>, so its value at the \<open>k\<close>-th turn is \<open>loopT k\<close>, the double reached from 0 by
  \<open>k\<close> additions of the double \<open>0.01\<close>. These doubles drift from \<open>k / 100\<close>, and the drift
  decides where the loop ends: \<open>loopT 49\<close> is \<open>0.49000000000000027\<close>, the last value that
  passes the guard, and \<open>loopT 50\<close> is \<open>0.5000000000000002\<close>.
\<close>

fun loopT :: "nat \<Rightarrow> real" where
  "loopT 0 = 0"
| "loopT (Suc k) = toDouble (loopT k + toDouble 0.01)"

text \<open>\<open>point.y > maxHeight\<close>, where \<open>maxHeight\<close> starts as \<open>-Infinity\<close>.\<close>

definition above :: "real \<Rightarrow> real option \<Rightarrow> bool" where
  "above h maxHeight = (case maxHeight of None \<Rightarrow> True | Some m \<Rightarrow> h > m)"

text \<open>
  The \<open>for\<close> loop: the arguments are the number \<open>k\<close> of the turn and the locals
  \<open>maxHeight\<close>, \<open>peakT\<close> and \<open>foundClimb\<close>; the value is \<open>peakT\<close> when the loop is left, by
  its guard or by \<open>break\<close>. The thresholds are the doubles \<open>0.1\<close> and \<open>-0.1\<close>; \<open>0.5\<close> and
  \<open>0\<close> are doubles as they stand. The comparisons of doubles are exact.
\<close>

function peakScan :: "Curve \<Rightarrow> nat \<Rightarrow> real option \<Rightarrow> real \<Rightarrow> bool \<Rightarrow> real" where
  "peakScan curve k maxHeight peakT foundClimb =
     (if loopT k \<le> 0.5 then
        (let t = loopT k;
             point = getPoint curve t;
             tangent = getTangent curve t;
             foundClimb' = (foundClimb \<or> vy tangent > toDouble 0.1);
             higher = (foundClimb' \<and> above (vy point) maxHeight);
             maxHeight' = (if higher then Some (vy point) else maxHeight);
             peakT' = (if higher then t else peakT)
         in if foundClimb' \<and> vy tangent < - toDouble 0.1 \<and> t > peakT' then peakT'
            else peakScan curve (Suc k) maxHeight' peakT' foundClimb')
      else peakT)"
  by pat_completeness auto

text \<open>The loop ends after 50 turns: the termination proof is with the properties.\<close>

definition firstPeakT :: "'p Track \<Rightarrow> 'p list \<Rightarrow> bool \<Rightarrow> real" where
  "firstPeakT track points looped =
     (if length points < 2 then 0
      else case getTrackCurve track points looped of
             None \<Rightarrow> 0
           | Some curve \<Rightarrow>
               (let peakT = peakScan curve 0 None 0 False
                in if peakT > 0 then peakT else toDouble 0.2))"

subsection \<open>The effects on the track and on \<open>isRiding\<close> (lines 47 to 56)\<close>

definition onTrackChange :: "'p Track \<Rightarrow> 'p list \<Rightarrow> bool \<Rightarrow> RideCameraState \<Rightarrow> RideCameraState" where
  "onTrackChange track points looped w = w\<lparr>curveRef := getTrackCurve track points looped\<rparr>"

definition onRideChange :: "bool \<Rightarrow> RideCameraState \<Rightarrow> RideCameraState" where
  "onRideChange riding w =
     (case curveRef w of
        Some curve \<Rightarrow>
          if riding then w\<lparr>maxHeightReached := vy (getPoint curve 0)\<rparr> else w
      | None \<Rightarrow> w)"

subsection \<open>The frame callback: speed (lines 66 to 82)\<close>

definition gravity :: real where
  "gravity = 9.8"

definition minSpeed :: real where
  "minSpeed = 1.0"

definition heightDrop :: "real \<Rightarrow> real \<Rightarrow> real" where
  "heightDrop maxHeight currentHeight = maxHeight - currentHeight"

definition energySpeed :: "real \<Rightarrow> real \<Rightarrow> real" where
  "energySpeed maxHeight currentHeight =
     sqrt (2 * gravity * max 0 (heightDrop maxHeight currentHeight))"

text \<open>The value is the local \<open>speed\<close> and the new \<open>maxHeightReached.current\<close>.\<close>

definition computeSpeed :: "bool \<Rightarrow> real \<Rightarrow> real \<Rightarrow> real \<Rightarrow> real \<Rightarrow> real \<Rightarrow> real \<times> real" where
  "computeSpeed chainLift progress peakT scale maxHeight currentHeight =
     (if chainLift \<and> progress < peakT then
        (let chainSpeed = 0.9 * scale
         in (chainSpeed, max maxHeight currentHeight))
      else
        (let maxHeight' = max maxHeight currentHeight;
             energy = energySpeed maxHeight' currentHeight
         in (max minSpeed energy * scale, maxHeight')))"

subsection \<open>The frame callback: orientation and smoothing (lines 100 to 148)\<close>

definition worldUp :: Vector3 where
  "worldUp = \<lparr>vx = 0, vy = 1, vz = 0\<rparr>"

definition cameraHeight :: real where
  "cameraHeight = 1.5"

text \<open>\<open>right\<close> after line 117, from the normalised tangent.\<close>

definition rightVector :: "Vector3 \<Rightarrow> Vector3" where
  "rightVector tangent =
     (let right = crossVectors tangent worldUp
      in normalizeV (if lengthSq right < 0.001 then \<lparr>vx = 1, vy = 0, vz = 0\<rparr> else right))"

definition baseUpVector :: "Vector3 \<Rightarrow> Vector3" where
  "baseUpVector tangent = normalizeV (crossVectors (rightVector tangent) tangent)"

definition upVectorAt :: "Vector3 \<Rightarrow> real \<Rightarrow> Vector3" where
  "upVectorAt tangent tilt =
     (let tiltRad = (tilt * pi) / 180
      in applyAxisAngle (baseUpVector tangent) tangent tiltRad)"

text \<open>
  \<open>x % 1\<close>: the remainder of JavaScript truncates the quotient towards zero, so the
  result has the sign of \<open>x\<close>.
\<close>

definition rem1 :: "real \<Rightarrow> real" where
  "rem1 a = a - of_int (if a < 0 then \<lceil>a\<rceil> else \<lfloor>a\<rfloor>)"

text \<open>Lines 144 and 145: the two \<open>lerp\<close> calls on the persistent vectors.\<close>

definition smoothPose :: "Vector3 \<times> Vector3 \<Rightarrow> Vector3 \<times> Vector3 \<Rightarrow> Vector3 \<times> Vector3" where
  "smoothPose target previous =
     (lerp (fst previous) (fst target) 0.25, lerp (snd previous) (snd target) 0.25)"

definition targetPose :: "'p Track \<Rightarrow> 'p Store \<Rightarrow> Curve \<Rightarrow> real \<Rightarrow> Vector3 \<times> Vector3" where
  "targetPose track store curve newProgress =
     (let position = getPoint curve newProgress;
          tangent = normalizeV (getTangent curve newProgress);
          tilt = getTrackTiltAtProgress track (trackPoints store) newProgress (isLooped store);
          upVector = upVectorAt tangent tilt;
          cameraOffset = multiplyScalar upVector cameraHeight;
          targetCameraPos = addV position cameraOffset;
          lookAheadT = (if isLooped store then rem1 (newProgress + 0.03)
                        else min (newProgress + 0.03) 0.999);
          lookAtPoint = getPoint curve lookAheadT;
          targetLookAt = addV lookAtPoint (multiplyScalar upVector (cameraHeight * 0.8))
      in (targetCameraPos, targetLookAt))"

definition orientCamera ::
  "'p Track \<Rightarrow> 'p Store \<Rightarrow> Curve \<Rightarrow> real \<Rightarrow> RideCameraState \<Rightarrow> RideCameraState" where
  "orientCamera track store curve newProgress w =
     (let smoothed = smoothPose (targetPose track store curve newProgress)
                       (previousCameraPos w, previousLookAt w)
      in w\<lparr>storeCalls := storeCalls w @ [SetRideProgress newProgress],
           previousCameraPos := fst smoothed,
           previousLookAt := snd smoothed,
           cameraPosition := fst smoothed,
           cameraLookAt := snd smoothed\<rparr>)"

subsection \<open>The frame callback (lines 58 to 149)\<close>

text \<open>Lines 84 and 85: \<open>newProgress\<close> before the completion test.\<close>

definition advance :: "real \<Rightarrow> real \<Rightarrow> real \<Rightarrow> real \<Rightarrow> real" where
  "advance progress speed delta curveLength = progress + (speed * delta) / curveLength"

text \<open>
  Lines 63 to 82 in the frame: the height at the stored progress, and \<open>firstPeakT\<close>, the
  memoised value for the track points and loop flag of the store.
\<close>

definition frameSpeed :: "'p Track \<Rightarrow> 'p Store \<Rightarrow> Curve \<Rightarrow> RideCameraState \<Rightarrow> real \<times> real" where
  "frameSpeed track store curve w =
     (let currentPoint = getPoint curve (rideProgress store);
          currentHeight = vy currentPoint;
          peakT = firstPeakT track (trackPoints store) (isLooped store)
      in computeSpeed (hasChainLift store) (rideProgress store) peakT (rideSpeed store)
           (maxHeightReached w) currentHeight)"

definition frameProgress :: "'p Track \<Rightarrow> 'p Store \<Rightarrow> real \<Rightarrow> Curve \<Rightarrow> RideCameraState \<Rightarrow> real" where
  "frameProgress track store delta curve w =
     advance (rideProgress store) (fst (frameSpeed track store curve w)) delta (getLength curve)"

text \<open>
  A curve of length zero makes \<open>progressDelta\<close> infinite or NaN: the model stops there.
\<close>

definition useFrame ::
  "'p Track \<Rightarrow> 'p Store \<Rightarrow> real \<Rightarrow> RideCameraState \<Rightarrow> fault + RideCameraState" where
  "useFrame track store delta w =
     (if \<not> isRiding store then Inr w
      else case curveRef w of
        None \<Rightarrow> Inr w
      | Some curve \<Rightarrow>
          (let curveLength = getLength curve;
               w1 = w\<lparr>maxHeightReached := snd (frameSpeed track store curve w)\<rparr>
           in if curveLength = 0 then Inl NonFinite
              else
                (let newProgress = frameProgress track store delta curve w
                 in if newProgress \<ge> 1 then
                      (if isLooped store then
                         (let wrapped = rem1 newProgress;
                              w2 = (if hasChainLift store
                                    then w1\<lparr>maxHeightReached := vy (getPoint curve 0)\<rparr>
                                    else w1)
                          in Inr (orientCamera track store curve wrapped w2))
                       else Inr (w1\<lparr>storeCalls := storeCalls w1 @ [StopRide]\<rparr>))
                    else Inr (orientCamera track store curve newProgress w1))))"

subsection \<open>The samples of the scan, and what it computes\<close>

text \<open>
  The height and the vertical slope that the loop of \<open>firstPeakT\<close> reads at its \<open>k\<close>-th
  turn, for \<open>k = 0, ..., 49\<close>.
\<close>

definition sampleHeight :: "Curve \<Rightarrow> nat \<Rightarrow> real" where
  "sampleHeight curve k = vy (getPoint curve (loopT k))"

definition sampleSlope :: "Curve \<Rightarrow> nat \<Rightarrow> real" where
  "sampleSlope curve k = vy (getTangent curve (loopT k))"

text \<open>
  With the climb found at sample \<open>a\<close>, the scan leaves the loop at the first sample that
  descends and is not a new maximum.
\<close>

definition stopsAt :: "Curve \<Rightarrow> nat \<Rightarrow> nat \<Rightarrow> bool" where
  "stopsAt curve a i =
     (sampleSlope curve i < - toDouble 0.1
      \<and> (\<exists>i' \<in> {a..<i}. sampleHeight curve i \<le> sampleHeight curve i'))"

text \<open>
  \<open>j\<close> is the peak of the climb found at sample \<open>a\<close>, the scan ending at sample \<open>s\<close>:
  the first sample of maximal height among the samples \<open>a, ..., s\<close>.
\<close>

definition climbPeak :: "Curve \<Rightarrow> nat \<Rightarrow> nat \<Rightarrow> nat \<Rightarrow> bool" where
  "climbPeak curve a s j =
     (a \<le> j \<and> j \<le> s \<and> s \<le> 49
      \<and> (\<forall>i \<in> {a..s}. sampleHeight curve i \<le> sampleHeight curve j)
      \<and> (\<forall>i \<in> {a..<j}. sampleHeight curve i < sampleHeight curve j)
      \<and> (\<forall>i \<in> {a..<s}. \<not> stopsAt curve a i)
      \<and> (s = 49 \<or> stopsAt curve a s))"

text \<open>
  For the proofs: rounding a natural number to 53 significant bits, and the values of
  \<open>loopT 0, ..., loopT 50\<close> in units of \<open>2 ^ -59\<close>.
\<close>

definition round53 :: "nat \<Rightarrow> nat" where
  "round53 m = (let d = floorlog 2 m - 53 in nat (rne (real m / 2 ^ d)) * 2 ^ d)"

definition loopUnits :: "nat list" where
  "loopUnits =
     [0, 5764607523034235, 11529215046068470, 17293822569102704, 23058430092136940,
       28823037615171176, 34587645138205412, 40352252661239648, 46116860184273880,
       51881467707308112, 57646075230342344, 63410682753376576, 69175290276410808,
       74939897799445040, 80704505322479280, 86469112845513520, 92233720368547760,
       97998327891582000, 103762935414616240, 109527542937650480, 115292150460684720,
       121056757983718960, 126821365506753200, 132585973029787440, 138350580552821680,
       144115188075855904, 149879795598890144, 155644403121924384, 161409010644958624,
       167173618167992864, 172938225691027104, 178702833214061344, 184467440737095584,
       190232048260129824, 195996655783164064, 201761263306198304, 207525870829232544,
       213290478352266784, 219055085875301024, 224819693398335264, 230584300921369504,
       236348908444403744, 242113515967437984, 247878123490472224, 253642731013506464,
       259407338536540704, 265171946059574944, 270936553582609184, 276701161105643424,
       282465768628677664, 288230376151711872]"

subsection \<open>Example rides\<close>

text \<open>A level straight of length 10, and a hill that rises until \<open>t = 1/4\<close> and then falls.\<close>

definition flatCurve :: Curve where
  "flatCurve =
     \<lparr>getPoint = (\<lambda>t. \<lparr>vx = 10 * t, vy = 0, vz = 0\<rparr>),
      getTangent = (\<lambda>t. \<lparr>vx = 1, vy = 0, vz = 0\<rparr>),
      getLength = 10\<rparr>"

definition hillCurve :: Curve where
  "hillCurve =
     \<lparr>getPoint = (\<lambda>t. \<lparr>vx = 3 * t, vy = (if t \<le> 1 / 4 then 4 * t else 2 - 4 * t), vz = 0\<rparr>),
      getTangent = (\<lambda>t. \<lparr>vx = 3 / 5, vy = (if t < 1 / 4 then 4 / 5 else - (4 / 5)), vz = 0\<rparr>),
      getLength = 5\<rparr>"

text \<open>
  A ramp that climbs all the way, and a level track that starts to climb only after
  \<open>t = 0.495\<close>, beyond the last sample of the scan.
\<close>

definition rampCurve :: Curve where
  "rampCurve =
     \<lparr>getPoint = (\<lambda>t. \<lparr>vx = 3 * t, vy = 4 * t, vz = 0\<rparr>),
      getTangent = (\<lambda>t. \<lparr>vx = 3 / 5, vy = 4 / 5, vz = 0\<rparr>),
      getLength = 5\<rparr>"

definition lateClimbCurve :: Curve where
  "lateClimbCurve =
     \<lparr>getPoint = (\<lambda>t. \<lparr>vx = 3 * t, vy = (if t \<le> 99 / 200 then 0 else 4 * t - 99 / 50), vz = 0\<rparr>),
      getTangent = (\<lambda>t. if t \<le> 99 / 200 then \<lparr>vx = 1, vy = 0, vz = 0\<rparr>
                        else \<lparr>vx = 3 / 5, vy = 4 / 5, vz = 0\<rparr>),
      getLength = 5\<rparr>"

definition fixedTrack :: "Curve \<Rightarrow> Vector3 Track" where
  "fixedTrack curve =
     \<lparr>getTrackCurve = (\<lambda>points looped. if length points < 2 then None else Some curve),
      getTrackTiltAtProgress = (\<lambda>points t looped. 0)\<rparr>"

definition origin :: Vector3 where
  "origin = \<lparr>vx = 0, vy = 0, vz = 0\<rparr>"

definition twoPoints :: "Vector3 list" where
  "twoPoints = [origin, \<lparr>vx = 10, vy = 0, vz = 0\<rparr>]"

definition rideAt :: "real \<Rightarrow> bool \<Rightarrow> bool \<Rightarrow> Vector3 Store" where
  "rideAt progress looped lift =
     \<lparr>trackPoints = twoPoints, isRiding = True, rideProgress = progress, rideSpeed = 1,
      isLooped = looped, hasChainLift = lift\<rparr>"

definition rideStart :: "Curve \<Rightarrow> RideCameraState" where
  "rideStart curve =
     \<lparr>curveRef = Some curve, previousCameraPos = origin, previousLookAt = origin,
      maxHeightReached = vy (getPoint curve 0), cameraPosition = origin,
      cameraLookAt = origin, storeCalls = []\<rparr>"

section \<open>Properties\<close>

subsection \<open>Rounding to a double\<close>

lemma rne_of_int [simp]: "rne (of_int z) = z"
  by (simp add: rne_def)

lemma rne_zero [simp]: "rne 0 = 0"
  by (simp add: rne_def)

lemma rne_of_nat [simp]: "rne (of_nat m) = int m"
  using rne_of_int [of "int m"] by simp

lemma rne_ge: "of_int z \<le> x \<Longrightarrow> z \<le> rne x"
proof -
  assume "of_int z \<le> x"
  then have "z \<le> \<lfloor>x\<rfloor>" by (simp add: le_floor_iff)
  then show ?thesis by (auto simp: rne_def Let_def)
qed

lemma rne_nonneg: "0 \<le> x \<Longrightarrow> 0 \<le> rne x"
  using rne_ge [of 0 x] by simp

lemma floorlog_window:
  fixes n :: nat
  assumes "2 ^ b \<le> n" and "n < 2 ^ Suc b"
  shows "floorlog 2 n = Suc b"
proof -
  have "Suc b \<le> floorlog 2 n" using assms(1) by (intro floorlog_ge_SucI) simp_all
  moreover have "floorlog 2 n \<le> Suc b" using assms(2) by (intro floorlog_leI) simp_all
  ultimately show ?thesis by simp
qed

lemma toDouble_nonneg: "0 \<le> x \<Longrightarrow> 0 \<le> toDouble x"
  by (simp add: toDouble_def Let_def rne_nonneg sgn_real_def)

lemma toDouble_pos:
  assumes "0 < x"
  shows "toDouble x =
           of_int (rne (x * 2 ^ subnormalBits
                          / 2 ^ (floorlog 2 (nat \<lfloor>x * 2 ^ subnormalBits\<rfloor>) - 53)))
             * 2 ^ (floorlog 2 (nat \<lfloor>x * 2 ^ subnormalBits\<rfloor>) - 53) / 2 ^ subnormalBits"
  using assms by (simp add: toDouble_def Let_def)

text \<open>A number with its leading bit at a known place is rounded at that scale.\<close>

lemma toDouble_normal:
  assumes "i \<le> subnormalBits" and "2 ^ 52 \<le> x * 2 ^ i" and "x * 2 ^ i < 2 ^ 53"
  shows "toDouble x = of_int (rne (x * 2 ^ i)) / 2 ^ i"
proof -
  define j where "j = subnormalBits - i"
  have ij: "(2::real) ^ subnormalBits = 2 ^ i * 2 ^ j"
    using assms(1) by (simp add: j_def flip: power_add)
  have pos: "0 < x"
  proof (rule ccontr)
    assume "\<not> 0 < x"
    then have "x * 2 ^ i \<le> 0" by (simp add: mult_le_0_iff)
    moreover have "(0::real) < 2 ^ 52" by simp
    ultimately show False using assms(2) by linarith
  qed
  define n where "n = x * 2 ^ subnormalBits"
  have n: "n = x * 2 ^ i * 2 ^ j" unfolding n_def ij by simp
  have lo: "(2::real) ^ (52 + j) \<le> n"
    unfolding n power_add using assms(2) by (intro mult_right_mono) simp_all
  have hi: "n < (2::real) ^ (53 + j)"
    unfolding n power_add using assms(3) by (intro mult_strict_right_mono) simp_all
  have "real (2 ^ (52 + j)) \<le> n" using lo by simp
  then have lo': "(2::nat) ^ (52 + j) \<le> nat \<lfloor>n\<rfloor>"
    by (rule le_nat_floor)
  have "n < real (2 ^ (53 + j))" using hi by simp
  moreover have "0 \<le> n" using pos by (simp add: n_def)
  ultimately have hi': "nat \<lfloor>n\<rfloor> < (2::nat) ^ Suc (52 + j)"
    by (simp add: nat_less_iff floor_less_iff)
  have fl: "floorlog 2 (nat \<lfloor>n\<rfloor>) = Suc (52 + j)"
    using lo' hi' by (rule floorlog_window)
  have s: "floorlog 2 (nat \<lfloor>n\<rfloor>) - 53 = j" by (simp add: fl)
  have q: "n / 2 ^ j = x * 2 ^ i" by (simp add: n)
  have "toDouble x = of_int (rne (n / 2 ^ j)) * 2 ^ j / 2 ^ subnormalBits"
    by (simp only: toDouble_pos [OF pos] n_def [symmetric] s)
  also have "\<dots> = of_int (rne (x * 2 ^ i)) / 2 ^ i"
    unfolding q ij by simp
  finally show ?thesis .
qed

text \<open>A multiple of a power of two is rounded as the natural number it is a multiple by.\<close>

lemma toDouble_dyadic:
  assumes "i \<le> subnormalBits"
  shows "toDouble (real m / 2 ^ i)
           = of_int (rne (real m / 2 ^ (floorlog 2 m - 53))) * 2 ^ (floorlog 2 m - 53) / 2 ^ i"
proof (cases "m = 0")
  case True
  then show ?thesis by (simp add: toDouble_def)
next
  case False
  define j where "j = subnormalBits - i"
  define d where "d = floorlog 2 m - 53"
  have ij: "(2::real) ^ subnormalBits = 2 ^ i * 2 ^ j"
    using assms by (simp add: j_def flip: power_add)
  have pos: "0 < real m / 2 ^ i" using False by simp
  have n: "real m / 2 ^ i * 2 ^ subnormalBits = real (m * 2 ^ j)"
    unfolding ij by simp
  have fn: "nat \<lfloor>real (m * 2 ^ j)\<rfloor> = m * 2 ^ j"
    by (simp only: floor_of_nat nat_int)
  have fl: "floorlog 2 (m * 2 ^ j) = floorlog 2 m + j"
    using False by simp
  have core: "of_int (rne (real (m * 2 ^ j) / 2 ^ (floorlog 2 m + j - 53))) * 2 ^ (floorlog 2 m + j - 53)
                = of_int (rne (real m / 2 ^ d)) * 2 ^ d * (2::real) ^ j"
  proof (cases "53 \<le> floorlog 2 m")
    case True
    then have s: "floorlog 2 m + j - 53 = d + j" by (simp add: d_def)
    have "real (m * 2 ^ j) / 2 ^ (d + j) = real m / 2 ^ d"
      by (simp add: power_add)
    then show ?thesis by (simp add: s power_add)
  next
    case lt: False
    then have d0: "d = 0" by (simp add: d_def)
    define s where "s = floorlog 2 m + j - 53"
    have sj: "s \<le> j" using lt by (simp add: s_def)
    have js: "(2::real) ^ j = 2 ^ (j - s) * 2 ^ s"
      using sj by (simp flip: power_add)
    have "real m * 2 ^ j / 2 ^ s = real m * 2 ^ (j - s)"
      by (subst js) simp
    then have "real (m * 2 ^ j) / 2 ^ s = real (m * 2 ^ (j - s))"
      by simp
    then have "of_int (rne (real (m * 2 ^ j) / 2 ^ s)) * (2::real) ^ s = real (m * 2 ^ (j - s)) * 2 ^ s"
      by (simp only: rne_of_nat of_int_of_nat_eq)
    also have "\<dots> = real m * 2 ^ j"
      unfolding js by simp
    finally show ?thesis by (simp add: d0 s_def)
  qed
  have "toDouble (real m / 2 ^ i)
          = of_int (rne (real (m * 2 ^ j) / 2 ^ (floorlog 2 m + j - 53))) * 2 ^ (floorlog 2 m + j - 53)
              / 2 ^ subnormalBits"
    by (simp only: toDouble_pos [OF pos] n fn fl)
  also have "\<dots> = of_int (rne (real m / 2 ^ d)) * 2 ^ d * (2::real) ^ j / 2 ^ subnormalBits"
    by (simp only: core)
  also have "\<dots> = of_int (rne (real m / 2 ^ d)) * 2 ^ d / 2 ^ i"
    unfolding ij by simp
  finally show ?thesis by (simp add: d_def)
qed

lemma toDouble_round53:
  "i \<le> subnormalBits \<Longrightarrow> toDouble (real m / 2 ^ i) = real (round53 m) / 2 ^ i"
  using rne_nonneg [of "real m / 2 ^ (floorlog 2 m - 53)"]
  by (simp add: toDouble_dyadic round53_def Let_def)

text \<open>The doubles that the literals \<open>0.01\<close>, \<open>0.1\<close> and \<open>0.2\<close> denote.\<close>

lemma toDouble_literals:
  "toDouble (1 / 100) = 5764607523034235 / 2 ^ 59"
  "toDouble (1 / 10) = 7205759403792794 / 2 ^ 56"
  "toDouble (1 / 5) = 7205759403792794 / 2 ^ 55"
  using toDouble_normal [of 59 "1 / 100"] toDouble_normal [of 56 "1 / 10"]
    toDouble_normal [of 55 "1 / 5"]
  by (simp_all add: rne_def subnormalBits_def)

text \<open>Rounding does not bring a number beyond the double next to one half back to it.\<close>

lemma toDouble_above_half:
  assumes "1 / 2 + 1 / 2 ^ 53 \<le> y"
  shows "1 / 2 < toDouble y"
proof (cases "y < 1")
  case True
  have lo: "2 ^ 52 + 1 \<le> y * 2 ^ 53"
  proof -
    have "(1 / 2 + 1 / 2 ^ 53) * 2 ^ 53 \<le> y * 2 ^ 53"
      using assms by (intro mult_right_mono) simp_all
    then show ?thesis by simp
  qed
  have hi: "y * 2 ^ 53 < 2 ^ 53" using True by simp
  have eq: "toDouble y = of_int (rne (y * 2 ^ 53)) / 2 ^ 53"
    using lo hi by (intro toDouble_normal) (simp_all add: subnormalBits_def)
  have "of_int (2 ^ 52 + 1) \<le> y * 2 ^ 53"
    using lo by simp
  then have "2 ^ 52 + 1 \<le> rne (y * 2 ^ 53)"
    by (rule rne_ge)
  then have "(of_int (2 ^ 52 + 1) :: real) \<le> of_int (rne (y * 2 ^ 53))"
    by (simp only: of_int_le_iff)
  then have "(2 ^ 52 + 1 :: real) \<le> of_int (rne (y * 2 ^ 53))"
    by simp
  then show ?thesis unfolding eq by simp
next
  case False
  then have y: "1 \<le> y" by simp
  then have ypos: "0 < y" by simp
  define n where "n = y * 2 ^ subnormalBits"
  define b where "b = floorlog 2 (nat \<lfloor>n\<rfloor>)"
  have n0: "0 \<le> n" using ypos by (simp add: n_def)
  have "(2::real) ^ subnormalBits \<le> n"
    unfolding n_def using y by (simp add: mult_le_cancel_right1)
  then have "real (2 ^ subnormalBits) \<le> n" by simp
  then have nat_lo: "(2::nat) ^ subnormalBits \<le> nat \<lfloor>n\<rfloor>"
    by (rule le_nat_floor)
  then have big: "Suc subnormalBits \<le> b"
    unfolding b_def by (intro floorlog_ge_SucI) simp_all
  have "0 < (2::nat) ^ subnormalBits" by (rule zero_less_power) simp
  then have pos: "0 < nat \<lfloor>n\<rfloor>"
    using nat_lo by (rule less_le_trans)
  have "(2::nat) ^ (b - 1) \<le> nat \<lfloor>n\<rfloor>"
    unfolding b_def using floorlog_bounds [OF pos, of 2] by simp
  then have r1: "real (2 ^ (b - 1)) \<le> real (nat \<lfloor>n\<rfloor>)"
    by (simp only: of_nat_le_iff)
  have r2: "real (nat \<lfloor>n\<rfloor>) \<le> n"
    using n0 by simp
  have "real (2 ^ (b - 1)) \<le> n"
    using r1 r2 by (rule order_trans)
  then have lead: "(2::real) ^ (b - 1) \<le> n" by simp
  define s where "s = b - 53"
  have bs: "b - 1 = 52 + s"
    using big by (simp add: s_def subnormalBits_def)
  have split: "(2::real) ^ (b - 1) = 2 ^ 52 * 2 ^ s"
    unfolding bs by (rule power_add)
  have "(2 ^ 52 :: real) * 2 ^ s \<le> n"
    using lead by (simp only: split)
  then have "(2 ^ 52 :: real) \<le> n / 2 ^ s"
    by (simp only: pos_le_divide_eq zero_less_power zero_less_numeral)
  then have "of_int (2 ^ 52) \<le> n / 2 ^ s" by simp
  then have "2 ^ 52 \<le> rne (n / 2 ^ s)"
    by (rule rne_ge)
  then have "(of_int (2 ^ 52) :: real) \<le> of_int (rne (n / 2 ^ s))"
    by (simp only: of_int_le_iff)
  then have "(2 ^ 52 :: real) \<le> of_int (rne (n / 2 ^ s))"
    by simp
  then have "(2::real) ^ 52 * 2 ^ s \<le> of_int (rne (n / 2 ^ s)) * 2 ^ s"
    by (rule mult_right_mono) simp
  then have "(2::real) ^ (b - 1) \<le> of_int (rne (n / 2 ^ s)) * 2 ^ s"
    by (simp only: split)
  moreover have "(2::real) ^ subnormalBits \<le> 2 ^ (b - 1)"
    using big by (intro power_increasing) simp_all
  ultimately have "(2::real) ^ subnormalBits \<le> of_int (rne (n / 2 ^ s)) * 2 ^ s"
    by (rule order_trans [rotated])
  then have ge: "(1::real) \<le> of_int (rne (n / 2 ^ s)) * 2 ^ s / 2 ^ subnormalBits"
    by (simp only: pos_le_divide_eq zero_less_power zero_less_numeral mult_1)
  have eq: "toDouble y = of_int (rne (n / 2 ^ s)) * 2 ^ s / 2 ^ subnormalBits"
    by (simp only: toDouble_pos [OF ypos] n_def [symmetric] b_def [symmetric] s_def [symmetric])
  have "1 \<le> toDouble y"
    unfolding eq by (rule ge)
  then show ?thesis by linarith
qed

subsection \<open>The values of the loop variable\<close>

lemma loopUnits_length: "length loopUnits = 51"
  by (simp add: loopUnits_def)

text \<open>Each entry of the table is the sum of the one before and of the double \<open>0.01\<close>, rounded.\<close>

lemma loopUnits_step:
  "list_all2 (\<lambda>a b. a < b \<and> round53 (a + 5764607523034235) = b)
     (butlast loopUnits) (tl loopUnits)"
  apply (simp add: loopUnits_def)
  apply (simp add: round53_def Let_def compute_floorlog rne_def)
  done

lemma loopUnits_Suc:
  assumes "k < 50"
  shows "loopUnits ! k < loopUnits ! Suc k"
    and "round53 (loopUnits ! k + 5764607523034235) = loopUnits ! Suc k"
proof -
  have k: "k < length (butlast loopUnits)" "k < length (tl loopUnits)"
    using assms by (simp_all add: loopUnits_length)
  have "butlast loopUnits ! k < tl loopUnits ! k
        \<and> round53 (butlast loopUnits ! k + 5764607523034235) = tl loopUnits ! k"
    using loopUnits_step k(1) by (rule list_all2_nthD)
  then show "loopUnits ! k < loopUnits ! Suc k"
    and "round53 (loopUnits ! k + 5764607523034235) = loopUnits ! Suc k"
    using k by (simp_all add: nth_butlast nth_tl)
qed

lemma loopUnits_mono: "j < k \<Longrightarrow> k \<le> 50 \<Longrightarrow> loopUnits ! j < loopUnits ! k"
proof (induction k)
  case 0
  then show ?case by simp
next
  case (Suc k)
  have step: "loopUnits ! k < loopUnits ! Suc k"
    using Suc.prems by (intro loopUnits_Suc) simp
  show ?case
  proof (cases "j = k")
    case True
    then show ?thesis using step by simp
  next
    case False
    then have "loopUnits ! j < loopUnits ! k"
      using Suc by simp
    then show ?thesis using step by simp
  qed
qed

lemma loopT_units: "k \<le> 50 \<Longrightarrow> loopT k = real (loopUnits ! k) / 2 ^ 59"
proof (induction k)
  case 0
  then show ?case by (simp add: loopUnits_def)
next
  case (Suc k)
  then have k: "k < 50" and ih: "loopT k = real (loopUnits ! k) / 2 ^ 59"
    by simp_all
  have lit: "toDouble 0.01 = real 5764607523034235 / 2 ^ 59"
    using toDouble_literals(1) by simp
  have "loopT k + toDouble 0.01 = real (loopUnits ! k + 5764607523034235) / 2 ^ 59"
    unfolding ih lit of_nat_add by (rule add_divide_distrib [symmetric])
  then have "loopT (Suc k) = toDouble (real (loopUnits ! k + 5764607523034235) / 2 ^ 59)"
    by (simp only: loopT.simps)
  also have "\<dots> = real (round53 (loopUnits ! k + 5764607523034235)) / 2 ^ 59"
    by (rule toDouble_round53) (simp add: subnormalBits_def)
  finally show ?case
    by (simp only: loopUnits_Suc(2) [OF k])
qed

lemma loopT_nonneg: "0 \<le> loopT k"
proof (induction k)
  case 0
  show ?case by simp
next
  case (Suc k)
  have "0 \<le> toDouble 0.01" by (rule toDouble_nonneg) simp
  then have "0 \<le> loopT k + toDouble 0.01" using Suc by simp
  then show ?case by (simp only: loopT.simps toDouble_nonneg)
qed

lemma loopT_mono: "j < k \<Longrightarrow> k \<le> 50 \<Longrightarrow> loopT j < loopT k"
  using loopUnits_mono [of j k] by (simp add: loopT_units divide_strict_right_mono)

text \<open>
  The 50th value, \<open>0.49000000000000027\<close>, is the last that passes the guard, and the values
  from \<open>0.5000000000000002\<close> on stay above one half.
\<close>

lemma loopT_last: "loopT 49 \<le> 0.5" "0.5 < loopT 50"
  by (simp_all add: loopT_units loopUnits_def)

lemma loopT_beyond: "50 \<le> k \<Longrightarrow> 0.5 < loopT k"
proof (induction k rule: nat_induct_at_least)
  case base
  show ?case by (rule loopT_last(2))
next
  case (Suc k)
  have "1 / 2 ^ 53 \<le> toDouble (1 / 100)"
    by (simp add: toDouble_literals)
  then have "1 / 2 + 1 / 2 ^ 53 \<le> loopT k + toDouble 0.01"
    using Suc.IH by simp
  then have "1 / 2 < toDouble (loopT k + toDouble 0.01)"
    by (rule toDouble_above_half)
  then show ?case by simp
qed

lemma loopT_guard: "loopT k \<le> 0.5 \<longleftrightarrow> k \<le> 49"
proof
  assume "loopT k \<le> 0.5"
  then have "\<not> 50 \<le> k" using loopT_beyond [of k] by auto
  then show "k \<le> 49" by simp
next
  assume k: "k \<le> 49"
  show "loopT k \<le> 0.5"
  proof (cases "k = 49")
    case True
    then show ?thesis using loopT_last(1) by simp
  next
    case False
    then have "loopT k < loopT 49" using k by (intro loopT_mono) simp_all
    then show ?thesis using loopT_last(1) by simp
  qed
qed

termination peakScan
proof (relation "measure (\<lambda>(curve, k, maxHeight, peakT, foundClimb). 50 - k)")
  show "wf (measure (\<lambda>(curve, k, maxHeight, peakT, foundClimb). 50 - k))"
    by simp
next
  fix curve :: Curve and k :: nat and maxHeight maxHeight' :: "real option"
    and peakT peakT' :: real and foundClimb foundClimb' :: bool
  assume "loopT k \<le> 0.5"
  then have "k \<le> 49" by (simp only: loopT_guard)
  then show "((curve, Suc k, maxHeight', peakT', foundClimb'), curve, k, maxHeight, peakT, foundClimb)
        \<in> measure (\<lambda>(curve, k, maxHeight, peakT, foundClimb). 50 - k)"
    by simp
qed

declare peakScan.simps [simp del]

subsection \<open>The scan for the first peak\<close>

lemma peakScan_upper:
  "peakT \<le> 0.5 \<Longrightarrow> peakScan curve k maxHeight peakT foundClimb \<le> 0.5"
proof (induction curve k maxHeight peakT foundClimb rule: peakScan.induct)
  case (1 curve k maxHeight peakT foundClimb)
  show ?case
    apply (subst peakScan.simps)
    using 1 by (auto simp: Let_def)
qed

lemma peakScan_lower:
  "0 \<le> peakT \<Longrightarrow> 0 \<le> peakScan curve k maxHeight peakT foundClimb"
proof (induction curve k maxHeight peakT foundClimb rule: peakScan.induct)
  case (1 curve k maxHeight peakT foundClimb)
  show ?case
    apply (subst peakScan.simps)
    using 1 loopT_nonneg [of k] by (auto simp: Let_def)
qed

text \<open>One turn of the loop at the \<open>k\<close>-th sample.\<close>

lemma peakScan_sample:
  "peakScan curve k maxHeight peakT foundClimb =
     (if k \<le> 49 then
        (let foundClimb' = (foundClimb \<or> sampleSlope curve k > toDouble 0.1);
             higher = (foundClimb' \<and> above (sampleHeight curve k) maxHeight);
             maxHeight' = (if higher then Some (sampleHeight curve k) else maxHeight);
             peakT' = (if higher then loopT k else peakT)
         in if foundClimb' \<and> sampleSlope curve k < - toDouble 0.1 \<and> loopT k > peakT' then peakT'
            else peakScan curve (Suc k) maxHeight' peakT' foundClimb')
      else peakT)"
  by (subst peakScan.simps) (simp only: loopT_guard sampleHeight_def sampleSlope_def Let_def)

text \<open>The same turn without \<open>let\<close>, for evaluating the scan on a given curve.\<close>

lemma peakScan_unfold:
  "peakScan curve k maxHeight peakT foundClimb =
     (if k \<le> 49 then
        (if (foundClimb \<or> sampleSlope curve k > toDouble 0.1)
            \<and> sampleSlope curve k < - toDouble 0.1
            \<and> loopT k > (if (foundClimb \<or> sampleSlope curve k > toDouble 0.1)
                             \<and> above (sampleHeight curve k) maxHeight then loopT k else peakT)
         then (if (foundClimb \<or> sampleSlope curve k > toDouble 0.1)
                  \<and> above (sampleHeight curve k) maxHeight then loopT k else peakT)
         else peakScan curve (Suc k)
                (if (foundClimb \<or> sampleSlope curve k > toDouble 0.1)
                    \<and> above (sampleHeight curve k) maxHeight
                 then Some (sampleHeight curve k) else maxHeight)
                (if (foundClimb \<or> sampleSlope curve k > toDouble 0.1)
                    \<and> above (sampleHeight curve k) maxHeight then loopT k else peakT)
                (foundClimb \<or> sampleSlope curve k > toDouble 0.1))
      else peakT)"
  by (subst peakScan_sample) (simp only: Let_def)

lemma peakScan_no_climb:
  "(\<forall>j \<in> {k..49}. sampleSlope curve j \<le> toDouble 0.1)
   \<Longrightarrow> peakScan curve k maxHeight peakT False = peakT"
proof (induction "50 - k" arbitrary: k)
  case 0
  then show ?case by (subst peakScan_sample) simp
next
  case (Suc n)
  then have k: "k \<le> 49" by simp
  have flat: "\<not> sampleSlope curve k > toDouble 0.1"
    using Suc.prems k by (simp add: not_less)
  have "peakScan curve (Suc k) maxHeight peakT False = peakT"
    using Suc by (intro Suc.hyps(1)) auto
  then show ?case
    using k flat by (subst peakScan_sample) (simp add: Let_def)
qed

lemma ball_less_Suc:
  "(\<forall>i \<in> {a..<Suc k}. P i) = ((\<forall>i \<in> {a..<k}. P i) \<and> (a \<le> k \<longrightarrow> P k))"
  by (auto simp: less_Suc_eq)

lemma ball_atMost_less:
  "(\<forall>i \<in> {a..k}. P i) = ((\<forall>i \<in> {a..<k}. P i) \<and> (a \<le> k \<longrightarrow> P (k::nat)))"
  by (auto simp: le_less)

text \<open>
  The invariant of the loop once the climb is found: \<open>peakT\<close> is \<open>loopT j\<close> and \<open>maxHeight\<close>
  the height there, for the first sample \<open>j\<close> of maximal height among those visited
  since the climb was found at sample \<open>a\<close>.
\<close>

lemma peakScan_after_climb:
  assumes "a \<le> j" and "j < k" and "k \<le> 50"
    and "\<forall>i \<in> {a..<k}. sampleHeight curve i \<le> sampleHeight curve j"
    and "\<forall>i \<in> {a..<j}. sampleHeight curve i < sampleHeight curve j"
    and "\<forall>i \<in> {a..<k}. \<not> stopsAt curve a i"
  shows "\<exists>j' s. climbPeak curve a s j'
           \<and> peakScan curve k (Some (sampleHeight curve j)) (loopT j) True = loopT j'"
  using assms
proof (induction "50 - k" arbitrary: k j)
  case 0
  then have k: "k = 50" by simp
  have "climbPeak curve a 49 j"
    using 0 k by (auto simp: climbPeak_def)
  moreover have "peakScan curve k (Some (sampleHeight curve j)) (loopT j) True = loopT j"
    using k by (subst peakScan_sample) simp
  ultimately show ?case by blast
next
  case (Suc n)
  then have k: "k \<le> 49" by simp
  have jk: "loopT j < loopT k"
    using Suc.prems(2) k by (intro loopT_mono) simp_all
  show ?case
  proof (cases "sampleHeight curve k > sampleHeight curve j")
    case True
    have nostop: "\<not> stopsAt curve a k"
      using True Suc.prems by (fastforce simp: stopsAt_def)
    have "\<exists>j' s. climbPeak curve a s j'
           \<and> peakScan curve (Suc k) (Some (sampleHeight curve k)) (loopT k) True = loopT j'"
    proof (rule Suc.hyps(1))
      show "n = 50 - Suc k" using Suc.hyps(2) by simp
      show "a \<le> k" using Suc.prems by simp
      show "k < Suc k" by simp
      show "Suc k \<le> 50" using k by simp
      show "\<forall>i \<in> {a..<Suc k}. sampleHeight curve i \<le> sampleHeight curve k"
      proof
        fix i
        assume "i \<in> {a..<Suc k}"
        then consider "i \<in> {a..<k}" | "i = k" by (auto simp: less_Suc_eq)
        then show "sampleHeight curve i \<le> sampleHeight curve k"
        proof cases
          case 1
          then have "sampleHeight curve i \<le> sampleHeight curve j"
            using Suc.prems(4) by blast
          then show ?thesis using True by simp
        next
          case 2
          then show ?thesis by simp
        qed
      qed
      show "\<forall>i \<in> {a..<k}. sampleHeight curve i < sampleHeight curve k"
        using True Suc.prems(4) by fastforce
      show "\<forall>i \<in> {a..<Suc k}. \<not> stopsAt curve a i"
        using nostop Suc.prems(6) by (auto simp: less_Suc_eq)
    qed
    then show ?thesis
      using k True by (subst peakScan_sample) (simp add: Let_def above_def)
  next
    case False
    then have le: "sampleHeight curve k \<le> sampleHeight curve j" by simp
    show ?thesis
    proof (cases "sampleSlope curve k < - toDouble 0.1")
      case True
      have "stopsAt curve a k"
        using True le Suc.prems(1,2) by (auto simp: stopsAt_def)
      then have "climbPeak curve a k j"
        using Suc.prems k le by (simp add: climbPeak_def ball_atMost_less)
      moreover have "peakScan curve k (Some (sampleHeight curve j)) (loopT j) True = loopT j"
        using k True False jk by (subst peakScan_sample) (simp add: Let_def above_def)
      ultimately show ?thesis by blast
    next
      case noslope: False
      have nostop: "\<not> stopsAt curve a k"
        using noslope by (simp add: stopsAt_def)
      have "\<exists>j' s. climbPeak curve a s j'
           \<and> peakScan curve (Suc k) (Some (sampleHeight curve j)) (loopT j) True = loopT j'"
      proof (rule Suc.hyps(1))
        show "n = 50 - Suc k" using Suc.hyps(2) by simp
        show "a \<le> j" using Suc.prems by simp
        show "j < Suc k" using Suc.prems by simp
        show "Suc k \<le> 50" using k by simp
        show "\<forall>i \<in> {a..<Suc k}. sampleHeight curve i \<le> sampleHeight curve j"
          using le Suc.prems(4) by (auto simp: less_Suc_eq)
        show "\<forall>i \<in> {a..<j}. sampleHeight curve i < sampleHeight curve j"
          using Suc.prems(5) .
        show "\<forall>i \<in> {a..<Suc k}. \<not> stopsAt curve a i"
          using nostop Suc.prems(6) by (auto simp: less_Suc_eq)
      qed
      then show ?thesis
        using k False noslope by (subst peakScan_sample) (simp add: Let_def above_def)
    qed
  qed
qed

lemma peakScan_before_climb:
  assumes "k \<le> a" and "a \<le> 49"
    and "sampleSlope curve a > toDouble 0.1"
    and "\<forall>i \<in> {k..<a}. sampleSlope curve i \<le> toDouble 0.1"
  shows "\<exists>j s. climbPeak curve a s j
           \<and> peakScan curve k None peakT False = loopT j"
  using assms
proof (induction "a - k" arbitrary: k)
  case 0
  then have ka: "k = a" by simp
  have up: "0 \<le> toDouble 0.1" by (rule toDouble_nonneg) simp
  have "\<exists>j' s. climbPeak curve a s j'
           \<and> peakScan curve (Suc a) (Some (sampleHeight curve a)) (loopT a) True = loopT j'"
    using 0 up by (intro peakScan_after_climb) (auto simp: stopsAt_def)
  then show ?case
    using 0 ka up by (subst peakScan_sample) (simp add: Let_def above_def)
next
  case (Suc n)
  then have k: "k < a" by simp
  then have flat: "\<not> sampleSlope curve k > toDouble 0.1"
    using Suc.prems(4) by (simp add: not_less)
  have "\<exists>j s. climbPeak curve a s j
           \<and> peakScan curve (Suc k) None peakT False = loopT j"
    using Suc k by (intro Suc.hyps(1)) auto
  then show ?case
    using k flat Suc.prems(2) by (subst peakScan_sample) (simp add: Let_def)
qed

text \<open>The peak and the end of the scan are determined by the samples.\<close>

lemma climbPeak_unique:
  assumes "climbPeak curve a s j" and "climbPeak curve a s' j'"
  shows "s = s' \<and> j = j'"
proof -
  have s: "s = s'"
  proof (rule ccontr)
    assume "s \<noteq> s'"
    then consider "s < s'" | "s' < s" by linarith
    then show False
    proof cases
      case 1
      then have "s \<noteq> 49" using assms(2) by (simp add: climbPeak_def)
      then have "stopsAt curve a s" using assms(1) by (simp add: climbPeak_def)
      moreover have "a \<le> s" using assms(1) by (simp add: climbPeak_def)
      ultimately show False using 1 assms(2) by (auto simp: climbPeak_def)
    next
      case 2
      then have "s' \<noteq> 49" using assms(1) by (simp add: climbPeak_def)
      then have "stopsAt curve a s'" using assms(2) by (simp add: climbPeak_def)
      moreover have "a \<le> s'" using assms(2) by (simp add: climbPeak_def)
      ultimately show False using 2 assms(1) by (auto simp: climbPeak_def)
    qed
  qed
  have j: "j = j'"
  proof (rule ccontr)
    assume "j \<noteq> j'"
    then consider "j < j'" | "j' < j" by linarith
    then show False
    proof cases
      case 1
      then have "sampleHeight curve j < sampleHeight curve j'"
        using assms by (auto simp: climbPeak_def)
      moreover have "sampleHeight curve j' \<le> sampleHeight curve j"
        using assms s by (auto simp: climbPeak_def)
      ultimately show False by simp
    next
      case 2
      then have "sampleHeight curve j' < sampleHeight curve j"
        using assms by (auto simp: climbPeak_def)
      moreover have "sampleHeight curve j \<le> sampleHeight curve j'"
        using assms s by (auto simp: climbPeak_def)
      ultimately show False by simp
    qed
  qed
  show ?thesis using s j by simp
qed

subsection \<open>The example rides\<close>

lemma flat_level: "\<forall>j \<in> {0..49}. sampleSlope flatCurve j \<le> toDouble 0.1"
  by (simp add: sampleSlope_def flatCurve_def toDouble_nonneg)

lemma lateClimb_level: "\<forall>j \<in> {0..49}. sampleSlope lateClimbCurve j \<le> toDouble 0.1"
proof
  have last: "loopT 49 \<le> 99 / 200"
    by (simp add: loopT_units loopUnits_def)
  fix j :: nat
  assume "j \<in> {0..49}"
  then have "loopT j \<le> loopT 49"
    using loopT_mono [of j 49] by (cases "j = 49") auto
  then have "loopT j \<le> 99 / 200"
    using last by linarith
  then show "sampleSlope lateClimbCurve j \<le> toDouble 0.1"
    by (simp add: sampleSlope_def lateClimbCurve_def toDouble_nonneg)
qed

lemma peakScan_flat: "peakScan flatCurve 0 None 0 False = 0"
  using flat_level by (rule peakScan_no_climb)

lemma peakScan_lateClimb: "peakScan lateClimbCurve 0 None 0 False = 0"
  using lateClimb_level by (rule peakScan_no_climb)

lemma peakScan_hill: "peakScan hillCurve 0 None 0 False = 144115188075855904 / 2 ^ 59"
  by (simp add: peakScan_unfold sampleSlope_def sampleHeight_def hillCurve_def above_def
        toDouble_literals loopT_units loopUnits_def del: loopT.simps)

lemma peakScan_ramp: "peakScan rampCurve 0 None 0 False = 282465768628677664 / 2 ^ 59"
  by (simp add: peakScan_unfold sampleSlope_def sampleHeight_def rampCurve_def above_def
        toDouble_literals loopT_units loopUnits_def del: loopT.simps)

lemma firstPeakT_flat: "firstPeakT (fixedTrack flatCurve) twoPoints looped = toDouble 0.2"
  by (simp add: firstPeakT_def fixedTrack_def twoPoints_def peakScan_flat)

lemma firstPeakT_hill:
  "firstPeakT (fixedTrack hillCurve) twoPoints looped = 144115188075855904 / 2 ^ 59"
  by (simp add: firstPeakT_def fixedTrack_def twoPoints_def peakScan_hill)

lemma firstPeakT_lateClimb:
  "firstPeakT (fixedTrack lateClimbCurve) twoPoints looped = toDouble 0.2"
  by (simp add: firstPeakT_def fixedTrack_def twoPoints_def peakScan_lateClimb)

lemma firstPeakT_ramp:
  "firstPeakT (fixedTrack rampCurve) twoPoints looped = 282465768628677664 / 2 ^ 59"
  by (simp add: firstPeakT_def fixedTrack_def twoPoints_def peakScan_ramp)

subsection \<open>What \<open>firstPeakT\<close> returns\<close>

text \<open>
  C5: \<open>firstPeakT\<close> returns 0 when there are fewer than two track points; with a curve,
  it returns the \<open>peakT\<close> of the scan when that is positive, and exactly the fallback 0.2
  (the double of that literal) when no climb is detected: when none of the 50 samples
  has a tangent with a vertical component above 0.1. When the first climbing sample is
  \<open>a\<close>, the \<open>peakT\<close> of the scan is the parameter \<open>loopT j\<close> of the first sample of maximal
  height among the samples from \<open>a\<close> to the one where the scan ends.
\<close>

theorem firstPeakT_cases:
  "(length points < 2 \<longrightarrow> firstPeakT track points looped = 0)
   \<and> (2 \<le> length points \<and> getTrackCurve track points looped = Some curve \<longrightarrow>
        (0 < peakScan curve 0 None 0 False \<longrightarrow>
           firstPeakT track points looped = peakScan curve 0 None 0 False)
      \<and> ((\<forall>k \<in> {0..49}. sampleSlope curve k \<le> toDouble 0.1) \<longrightarrow>
           firstPeakT track points looped = toDouble 0.2)
      \<and> (a \<le> 49 \<and> sampleSlope curve a > toDouble 0.1
            \<and> (\<forall>i \<in> {0..<a}. sampleSlope curve i \<le> toDouble 0.1) \<longrightarrow>
           (\<exists>s j. climbPeak curve a s j \<and> peakScan curve 0 None 0 False = loopT j)))"
proof (intro conjI impI)
  assume "length points < 2"
  then show "firstPeakT track points looped = 0"
    by (simp add: firstPeakT_def)
next
  assume "2 \<le> length points \<and> getTrackCurve track points looped = Some curve"
    and "0 < peakScan curve 0 None 0 False"
  then show "firstPeakT track points looped = peakScan curve 0 None 0 False"
    by (simp add: firstPeakT_def Let_def)
next
  assume c: "2 \<le> length points \<and> getTrackCurve track points looped = Some curve"
    and flat: "\<forall>k \<in> {0..49}. sampleSlope curve k \<le> toDouble 0.1"
  have "peakScan curve 0 None 0 False = 0"
    using flat by (rule peakScan_no_climb)
  then show "firstPeakT track points looped = toDouble 0.2"
    using c by (simp add: firstPeakT_def Let_def)
next
  assume "a \<le> 49 \<and> sampleSlope curve a > toDouble 0.1
            \<and> (\<forall>i \<in> {0..<a}. sampleSlope curve i \<le> toDouble 0.1)"
  then have "\<exists>j s. climbPeak curve a s j \<and> peakScan curve 0 None 0 False = loopT j"
    by (intro peakScan_before_climb) simp_all
  then show "\<exists>s j. climbPeak curve a s j \<and> peakScan curve 0 None 0 False = loopT j"
    by auto
qed

theorem firstPeakT_cases_witness:
  "length ([] :: Vector3 list) < 2
   \<and> firstPeakT (fixedTrack hillCurve) [] False = 0
   \<and> 2 \<le> length twoPoints
   \<and> getTrackCurve (fixedTrack flatCurve) twoPoints False = Some flatCurve
   \<and> firstPeakT (fixedTrack flatCurve) twoPoints False = 7205759403792794 / 2 ^ 55
   \<and> getTrackCurve (fixedTrack lateClimbCurve) twoPoints False = Some lateClimbCurve
   \<and> firstPeakT (fixedTrack lateClimbCurve) twoPoints False = 7205759403792794 / 2 ^ 55
   \<and> getTrackCurve (fixedTrack rampCurve) twoPoints False = Some rampCurve
   \<and> 0 < peakScan rampCurve 0 None 0 False
   \<and> firstPeakT (fixedTrack rampCurve) twoPoints False = 282465768628677664 / 2 ^ 59
   \<and> (0::nat) \<le> 49 \<and> sampleSlope rampCurve 0 > toDouble 0.1
   \<and> (\<exists>s j. climbPeak rampCurve 0 s j \<and> 282465768628677664 / 2 ^ 59 = loopT j)
   \<and> getTrackCurve (fixedTrack hillCurve) twoPoints False = Some hillCurve
   \<and> firstPeakT (fixedTrack hillCurve) twoPoints False = 144115188075855904 / 2 ^ 59"
proof -
  have short: "length ([] :: Vector3 list) < 2" by simp
  have two: "2 \<le> length twoPoints" by (simp add: twoPoints_def)
  have curves: "getTrackCurve (fixedTrack flatCurve) twoPoints False = Some flatCurve"
    "getTrackCurve (fixedTrack lateClimbCurve) twoPoints False = Some lateClimbCurve"
    "getTrackCurve (fixedTrack rampCurve) twoPoints False = Some rampCurve"
    "getTrackCurve (fixedTrack hillCurve) twoPoints False = Some hillCurve"
    by (simp_all add: fixedTrack_def twoPoints_def)
  have pos: "0 < peakScan rampCurve 0 None 0 False" "0 < peakScan hillCurve 0 None 0 False"
    by (simp_all add: peakScan_ramp peakScan_hill)
  have climb: "sampleSlope rampCurve 0 > toDouble 0.1"
    by (simp add: sampleSlope_def rampCurve_def toDouble_literals)
  have none: "\<forall>i \<in> {0..<0::nat}. sampleSlope rampCurve i \<le> toDouble 0.1" by simp
  show ?thesis
    using firstPeakT_cases [of "[]" "fixedTrack hillCurve" False hillCurve 0]
      firstPeakT_cases [of twoPoints "fixedTrack flatCurve" False flatCurve 0]
      firstPeakT_cases [of twoPoints "fixedTrack lateClimbCurve" False lateClimbCurve 0]
      firstPeakT_cases [of twoPoints "fixedTrack rampCurve" False rampCurve 0]
      firstPeakT_cases [of twoPoints "fixedTrack hillCurve" False hillCurve 0]
      short two curves pos climb none flat_level lateClimb_level
    by (simp add: peakScan_ramp peakScan_hill toDouble_literals)
qed

text \<open>
  C8: for every track-point sequence and loop flag the value of \<open>firstPeakT\<close> lies in
  \<open>[0, 0.5]\<close>, and so does the \<open>peakT\<close> of the scan of any curve.
\<close>

theorem firstPeakT_range:
  "0 \<le> firstPeakT track points looped \<and> firstPeakT track points looped \<le> 0.5
   \<and> 0 \<le> peakScan curve 0 None 0 False \<and> peakScan curve 0 None 0 False \<le> 0.5"
proof -
  have lo: "0 \<le> peakScan c 0 None 0 False" for c
    by (rule peakScan_lower) simp
  have hi: "peakScan c 0 None 0 False \<le> 0.5" for c
    by (rule peakScan_upper) simp
  have fallback: "0 \<le> toDouble 0.2" "toDouble 0.2 \<le> 0.5"
    by (simp_all add: toDouble_literals)
  have "0 \<le> firstPeakT track points looped"
    using lo fallback by (simp add: firstPeakT_def Let_def split: option.split)
  moreover have "firstPeakT track points looped \<le> 0.5"
    using hi fallback by (simp add: firstPeakT_def Let_def split: option.split)
  ultimately show ?thesis using lo hi by simp
qed

theorem firstPeakT_range_witness:
  "0 \<le> firstPeakT (fixedTrack hillCurve) twoPoints False
   \<and> firstPeakT (fixedTrack hillCurve) twoPoints False \<le> 0.5
   \<and> 0 \<le> peakScan hillCurve 0 None 0 False \<and> peakScan hillCurve 0 None 0 False \<le> 0.5"
  using firstPeakT_range [of "fixedTrack hillCurve" twoPoints False hillCurve] by simp

lemma sqrt_49: "sqrt 49 = 7"
  using real_sqrt_abs2 [of 7] by simp

lemma hill_heights:
  "vy (getPoint hillCurve 0) = 0"
  "vy (getPoint hillCurve (1 / 10)) = 2 / 5"
  "vy (getPoint hillCurve (1 / 5)) = 4 / 5"
  "vy (getPoint hillCurve (7 / 8)) = - (3 / 2)"
  by (simp_all add: hillCurve_def)

lemma flat_heights: "vy (getPoint flatCurve t) = 0"
  by (simp add: flatCurve_def)

lemma curve_lengths: "getLength hillCurve = 5" "getLength flatCurve = 10"
  by (simp_all add: hillCurve_def flatCurve_def)

subsection \<open>The speed of a frame\<close>

lemma frameSpeed_gravity:
  assumes "\<not> hasChainLift store \<or> firstPeakT track (trackPoints store) (isLooped store) \<le> rideProgress store"
  shows "frameSpeed track store curve w =
           (max minSpeed (energySpeed (max (maxHeightReached w) (vy (getPoint curve (rideProgress store))))
                            (vy (getPoint curve (rideProgress store)))) * rideSpeed store,
            max (maxHeightReached w) (vy (getPoint curve (rideProgress store))))"
  using assms by (auto simp: frameSpeed_def computeSpeed_def Let_def)

lemma frameSpeed_chain:
  assumes "hasChainLift store" and "rideProgress store < firstPeakT track (trackPoints store) (isLooped store)"
  shows "frameSpeed track store curve w =
           (0.9 * rideSpeed store, max (maxHeightReached w) (vy (getPoint curve (rideProgress store))))"
  using assms by (simp add: frameSpeed_def computeSpeed_def Let_def)

text \<open>
  C1: in the gravity phase (no chain lift, or the progress has reached \<open>firstPeakT\<close>) a
  frame first raises \<open>maxHeightReached\<close> to the maximum of itself and the current height,
  then takes \<open>energySpeed = sqrt (2 * 9.8 * max 0 (maxHeightReached - currentHeight))\<close>, and
  its speed is \<open>max 1.0 energySpeed * rideSpeed\<close>: the speed before scaling is never below
  1.0, whatever the heights are.
\<close>

theorem gravity_phase_speed:
  assumes "\<not> hasChainLift store
           \<or> firstPeakT track (trackPoints store) (isLooped store) \<le> rideProgress store"
  shows "let currentHeight = vy (getPoint curve (rideProgress store));
             maxHeight = max (maxHeightReached w) currentHeight;
             energy = sqrt (2 * 9.8 * max 0 (maxHeight - currentHeight));
             preScale = max 1.0 energy
         in frameSpeed track store curve w = (preScale * rideSpeed store, maxHeight)
            \<and> 1.0 \<le> preScale"
  using frameSpeed_gravity [OF assms, of curve w]
  by (simp add: Let_def energySpeed_def heightDrop_def gravity_def minSpeed_def)

theorem gravity_phase_speed_witness:
  "firstPeakT (fixedTrack hillCurve) twoPoints False \<le> rideProgress (rideAt (7 / 8) False True)
   \<and> frameSpeed (fixedTrack hillCurve) (rideAt (7 / 8) False True) hillCurve
        ((rideStart hillCurve)\<lparr>maxHeightReached := 1\<rparr>) = (7, 1)
   \<and> frameSpeed (fixedTrack flatCurve) (rideAt (1 / 2) False False) flatCurve
        (rideStart flatCurve) = (1, 0)"
  using gravity_phase_speed [of "rideAt (7 / 8) False True" "fixedTrack hillCurve" hillCurve
      "(rideStart hillCurve)\<lparr>maxHeightReached := 1\<rparr>"]
    gravity_phase_speed [of "rideAt (1 / 2) False False" "fixedTrack flatCurve" flatCurve
      "rideStart flatCurve"]
  by (simp add: rideAt_def rideStart_def firstPeakT_hill hill_heights flat_heights Let_def sqrt_49)

text \<open>
  C4: in a frame with chain lift and a progress below \<open>firstPeakT\<close> the speed is exactly
  \<open>0.9 * rideSpeed\<close>, whatever \<open>maxHeightReached\<close> was, and \<open>maxHeightReached\<close> becomes the
  maximum of itself and the current height; once the progress has reached
  \<open>firstPeakT\<close> the speed is the energy-based one.
\<close>

theorem chain_lift_speed:
  "(hasChainLift store
      \<and> rideProgress store < firstPeakT track (trackPoints store) (isLooped store) \<longrightarrow>
      frameSpeed track store curve w =
        (0.9 * rideSpeed store,
         max (maxHeightReached w) (vy (getPoint curve (rideProgress store)))))
   \<and> (firstPeakT track (trackPoints store) (isLooped store) \<le> rideProgress store \<longrightarrow>
      frameSpeed track store curve w =
        (max minSpeed
           (energySpeed (max (maxHeightReached w) (vy (getPoint curve (rideProgress store))))
              (vy (getPoint curve (rideProgress store)))) * rideSpeed store,
         max (maxHeightReached w) (vy (getPoint curve (rideProgress store)))))"
  using frameSpeed_chain [of store track curve w] frameSpeed_gravity [of store track curve w]
  by auto

theorem chain_lift_speed_witness:
  "hasChainLift (rideAt (1 / 10) False True)
   \<and> rideProgress (rideAt (1 / 10) False True) < firstPeakT (fixedTrack hillCurve) twoPoints False
   \<and> frameSpeed (fixedTrack hillCurve) (rideAt (1 / 10) False True) hillCurve
        (rideStart hillCurve) = (9 / 10, 2 / 5)
   \<and> firstPeakT (fixedTrack hillCurve) twoPoints False \<le> rideProgress (rideAt (7 / 8) False True)
   \<and> frameSpeed (fixedTrack hillCurve) (rideAt (7 / 8) False True) hillCurve
        ((rideStart hillCurve)\<lparr>maxHeightReached := 1\<rparr>) = (7, 1)"
  using chain_lift_speed [of "rideAt (1 / 10) False True" "fixedTrack hillCurve" hillCurve
      "rideStart hillCurve"]
    chain_lift_speed [of "rideAt (7 / 8) False True" "fixedTrack hillCurve" hillCurve
      "(rideStart hillCurve)\<lparr>maxHeightReached := 1\<rparr>"]
  by (simp add: rideAt_def rideStart_def firstPeakT_hill hill_heights Let_def sqrt_49
        energySpeed_def heightDrop_def gravity_def minSpeed_def)

text \<open>
  C9: in the gravity branch \<open>heightDrop\<close> is taken from the \<open>maxHeightReached\<close> just
  updated, so it is never negative: clamping it at 0 changes nothing, the argument of
  the square root is non-negative, and the speed is the one computed without the clamp.
\<close>

theorem height_drop_nonneg:
  assumes "\<not> (hasChainLift store
              \<and> rideProgress store < firstPeakT track (trackPoints store) (isLooped store))"
  shows "let currentHeight = vy (getPoint curve (rideProgress store));
             maxHeight = snd (frameSpeed track store curve w);
             drop = heightDrop maxHeight currentHeight
         in maxHeight = max (maxHeightReached w) currentHeight
          \<and> 0 \<le> drop
          \<and> max 0 drop = drop
          \<and> 0 \<le> 2 * gravity * drop
          \<and> energySpeed maxHeight currentHeight = sqrt (2 * gravity * drop)
          \<and> 0 \<le> energySpeed maxHeight currentHeight
          \<and> fst (frameSpeed track store curve w)
               = max minSpeed (sqrt (2 * gravity * drop)) * rideSpeed store"
proof -
  have g: "\<not> hasChainLift store
           \<or> firstPeakT track (trackPoints store) (isLooped store) \<le> rideProgress store"
    using assms by auto
  show ?thesis
    by (simp add: frameSpeed_gravity [OF g] Let_def energySpeed_def heightDrop_def gravity_def)
qed

theorem height_drop_nonneg_witness:
  "\<not> (hasChainLift (rideAt (7 / 8) False True)
        \<and> rideProgress (rideAt (7 / 8) False True)
            < firstPeakT (fixedTrack hillCurve) twoPoints False)
   \<and> heightDrop (snd (frameSpeed (fixedTrack hillCurve) (rideAt (7 / 8) False True) hillCurve
        ((rideStart hillCurve)\<lparr>maxHeightReached := 1\<rparr>))) (vy (getPoint hillCurve (7 / 8))) = 5 / 2
   \<and> energySpeed (snd (frameSpeed (fixedTrack hillCurve) (rideAt (7 / 8) False True) hillCurve
        ((rideStart hillCurve)\<lparr>maxHeightReached := 1\<rparr>))) (vy (getPoint hillCurve (7 / 8))) = 7"
  using height_drop_nonneg [of "rideAt (7 / 8) False True" "fixedTrack hillCurve" hillCurve
      "(rideStart hillCurve)\<lparr>maxHeightReached := 1\<rparr>"]
  by (simp add: rideAt_def rideStart_def firstPeakT_hill hill_heights Let_def sqrt_49
        energySpeed_def heightDrop_def gravity_def)

subsection \<open>The end of the track\<close>

lemma useFrame_advances:
  assumes "isRiding store" and "curveRef w = Some curve" and "getLength curve \<noteq> 0"
    and "frameProgress track store delta curve w < 1"
  shows "useFrame track store delta w =
           Inr (orientCamera track store curve (frameProgress track store delta curve w)
                  (w\<lparr>maxHeightReached := snd (frameSpeed track store curve w)\<rparr>))"
  using assms by (simp add: useFrame_def Let_def)

lemma rem1_frac: "1 \<le> a \<Longrightarrow> rem1 a = a - of_int \<lfloor>a\<rfloor>"
  by (simp add: rem1_def)

text \<open>
  C2: on a track that is not looped, a frame whose
  \<open>newProgress = progress + speed * delta / curveLength\<close> reaches or exceeds 1 calls
  \<open>stopRide\<close> and nothing else of the store (the stored progress is not advanced), and
  computes no orientation: the smoothed vectors and the camera are as before.
\<close>

theorem nonlooped_completion_stops:
  assumes "isRiding store" and "curveRef w = Some curve" and "getLength curve \<noteq> 0"
    and "\<not> isLooped store"
    and "1 \<le> frameProgress track store delta curve w"
  shows "\<exists>w'. useFrame track store delta w = Inr w'
           \<and> storeCalls w' = storeCalls w @ [StopRide]
           \<and> previousCameraPos w' = previousCameraPos w
           \<and> previousLookAt w' = previousLookAt w
           \<and> cameraPosition w' = cameraPosition w
           \<and> cameraLookAt w' = cameraLookAt w"
  using assms by (auto simp: useFrame_def Let_def)

theorem nonlooped_completion_stops_witness:
  "isRiding (rideAt (19 / 20) False False)
   \<and> curveRef (rideStart flatCurve) = Some flatCurve
   \<and> getLength flatCurve \<noteq> 0
   \<and> \<not> isLooped (rideAt (19 / 20) False False)
   \<and> frameProgress (fixedTrack flatCurve) (rideAt (19 / 20) False False) 1 flatCurve
        (rideStart flatCurve) = 21 / 20
   \<and> (\<exists>w'. useFrame (fixedTrack flatCurve) (rideAt (19 / 20) False False) 1 (rideStart flatCurve)
               = Inr w'
           \<and> storeCalls w' = [StopRide]
           \<and> previousCameraPos w' = origin
           \<and> previousLookAt w' = origin
           \<and> cameraPosition w' = origin
           \<and> cameraLookAt w' = origin)"
proof -
  have p: "frameProgress (fixedTrack flatCurve) (rideAt (19 / 20) False False) 1 flatCurve
        (rideStart flatCurve) = 21 / 20"
    by (simp add: frameProgress_def advance_def frameSpeed_def computeSpeed_def Let_def
          energySpeed_def heightDrop_def minSpeed_def rideAt_def rideStart_def
          flat_heights curve_lengths)
  have h: "isRiding (rideAt (19 / 20) False False)" "curveRef (rideStart flatCurve) = Some flatCurve"
    "getLength flatCurve \<noteq> 0" "\<not> isLooped (rideAt (19 / 20) False False)"
    by (simp_all add: rideAt_def rideStart_def curve_lengths)
  have q: "1 \<le> frameProgress (fixedTrack flatCurve) (rideAt (19 / 20) False False) 1 flatCurve
        (rideStart flatCurve)"
    by (simp add: p)
  show ?thesis
    using nonlooped_completion_stops [OF h q] h p by (simp add: rideStart_def)
qed

text \<open>
  C10: on that terminal frame \<open>maxHeightReached\<close> has been raised to the maximum of itself
  and the current height when \<open>stopRide\<close> is called, and nothing else of the persistent
  state changes: no progress is stored, and \<open>previousCameraPos\<close> and \<open>previousLookAt\<close>
  keep their values.
\<close>

theorem terminal_frame_effect:
  assumes "isRiding store" and "curveRef w = Some curve" and "getLength curve \<noteq> 0"
    and "\<not> isLooped store"
    and "1 \<le> frameProgress track store delta curve w"
  shows "useFrame track store delta w =
           Inr (w\<lparr>maxHeightReached :=
                     max (maxHeightReached w) (vy (getPoint curve (rideProgress store))),
                   storeCalls := storeCalls w @ [StopRide]\<rparr>)"
  using assms by (auto simp: useFrame_def frameSpeed_def computeSpeed_def Let_def)

theorem terminal_frame_effect_witness:
  "isRiding (rideAt (1 / 5) False True)
   \<and> curveRef (rideStart hillCurve) = Some hillCurve
   \<and> getLength hillCurve \<noteq> 0
   \<and> \<not> isLooped (rideAt (1 / 5) False True)
   \<and> frameProgress (fixedTrack hillCurve) (rideAt (1 / 5) False True) 5 hillCurve
        (rideStart hillCurve) = 11 / 10
   \<and> useFrame (fixedTrack hillCurve) (rideAt (1 / 5) False True) 5 (rideStart hillCurve)
       = Inr \<lparr>curveRef = Some hillCurve, previousCameraPos = origin, previousLookAt = origin,
              maxHeightReached = 4 / 5, cameraPosition = origin, cameraLookAt = origin,
              storeCalls = [StopRide]\<rparr>"
proof -
  have p: "frameProgress (fixedTrack hillCurve) (rideAt (1 / 5) False True) 5 hillCurve
        (rideStart hillCurve) = 11 / 10"
    by (simp add: frameProgress_def advance_def frameSpeed_def computeSpeed_def Let_def
          rideAt_def rideStart_def firstPeakT_hill hill_heights curve_lengths)
  have h: "isRiding (rideAt (1 / 5) False True)" "curveRef (rideStart hillCurve) = Some hillCurve"
    "getLength hillCurve \<noteq> 0" "\<not> isLooped (rideAt (1 / 5) False True)"
    by (simp_all add: rideAt_def rideStart_def curve_lengths)
  have q: "1 \<le> frameProgress (fixedTrack hillCurve) (rideAt (1 / 5) False True) 5 hillCurve
        (rideStart hillCurve)"
    by (simp add: p)
  show ?thesis
    using terminal_frame_effect [OF h q] h p
    by (simp add: rideStart_def rideAt_def hill_heights)
qed

text \<open>
  C3: on a looped track, a frame whose \<open>newProgress\<close> reaches or exceeds 1 stores
  \<open>newProgress mod 1\<close> (its fractional part), which lies in \<open>[0, 1)\<close>; and with chain lift
  \<open>maxHeightReached\<close> is reset, in that frame, to the height of the curve at \<open>t = 0\<close>.
\<close>

theorem looped_completion_wraps:
  assumes "isRiding store" and "curveRef w = Some curve" and "getLength curve \<noteq> 0"
    and "isLooped store"
    and "1 \<le> frameProgress track store delta curve w"
  shows "\<exists>w' wrapped. useFrame track store delta w = Inr w'
           \<and> wrapped = frameProgress track store delta curve w
                         - of_int \<lfloor>frameProgress track store delta curve w\<rfloor>
           \<and> 0 \<le> wrapped \<and> wrapped < 1
           \<and> storeCalls w' = storeCalls w @ [SetRideProgress wrapped]
           \<and> (hasChainLift store \<longrightarrow> maxHeightReached w' = vy (getPoint curve 0))"
  using assms
  apply (simp add: useFrame_def Let_def orientCamera_def rem1_frac)
  by linarith

theorem looped_completion_wraps_witness:
  "isRiding (rideAt (7 / 8) True True)
   \<and> curveRef ((rideStart hillCurve)\<lparr>maxHeightReached := 1\<rparr>) = Some hillCurve
   \<and> getLength hillCurve \<noteq> 0
   \<and> isLooped (rideAt (7 / 8) True True)
   \<and> hasChainLift (rideAt (7 / 8) True True)
   \<and> frameProgress (fixedTrack hillCurve) (rideAt (7 / 8) True True) (1 / 10) hillCurve
        ((rideStart hillCurve)\<lparr>maxHeightReached := 1\<rparr>) = 203 / 200
   \<and> (\<exists>w'. useFrame (fixedTrack hillCurve) (rideAt (7 / 8) True True) (1 / 10)
               ((rideStart hillCurve)\<lparr>maxHeightReached := 1\<rparr>) = Inr w'
           \<and> storeCalls w' = [SetRideProgress (3 / 200)]
           \<and> maxHeightReached w' = 0)"
proof -
  have p: "frameProgress (fixedTrack hillCurve) (rideAt (7 / 8) True True) (1 / 10) hillCurve
        ((rideStart hillCurve)\<lparr>maxHeightReached := 1\<rparr>) = 203 / 200"
    by (simp add: frameProgress_def advance_def frameSpeed_def computeSpeed_def Let_def
          energySpeed_def heightDrop_def gravity_def minSpeed_def sqrt_49
          rideAt_def rideStart_def firstPeakT_hill hill_heights curve_lengths)
  have fl: "\<lfloor>203 / 200 :: real\<rfloor> = 1" by simp
  have h: "isRiding (rideAt (7 / 8) True True)"
    "curveRef ((rideStart hillCurve)\<lparr>maxHeightReached := 1\<rparr>) = Some hillCurve"
    "getLength hillCurve \<noteq> 0" "isLooped (rideAt (7 / 8) True True)"
    by (simp_all add: rideAt_def rideStart_def curve_lengths)
  have q: "1 \<le> frameProgress (fixedTrack hillCurve) (rideAt (7 / 8) True True) (1 / 10) hillCurve
        ((rideStart hillCurve)\<lparr>maxHeightReached := 1\<rparr>)"
    by (simp add: p)
  have lift: "hasChainLift (rideAt (7 / 8) True True)" by (simp add: rideAt_def)
  show ?thesis
    using looped_completion_wraps [OF h q, unfolded p fl] h p lift
    by (auto simp: rideStart_def hill_heights)
qed

subsection \<open>Vector algebra\<close>

lemma vlength_nonneg: "0 \<le> vlength v"
  by (simp add: vlength_def)

lemma lengthSq_multiplyScalar: "lengthSq (multiplyScalar v s) = s * s * lengthSq v"
  by (simp add: lengthSq_def multiplyScalar_def algebra_simps)

lemma vlength_multiplyScalar: "vlength (multiplyScalar v s) = \<bar>s\<bar> * vlength v"
proof -
  have "vlength (multiplyScalar v s) = sqrt (lengthSq (multiplyScalar v s))"
    by (simp add: vlength_def lengthSq_def)
  also have "\<dots> = sqrt (s * s * lengthSq v)"
    by (simp only: lengthSq_multiplyScalar)
  also have "\<dots> = \<bar>s\<bar> * sqrt (lengthSq v)"
    by (simp add: real_sqrt_mult)
  finally show ?thesis by (simp add: vlength_def lengthSq_def)
qed

lemma vlength_normalizeV:
  assumes "vlength v \<noteq> 0"
  shows "vlength (normalizeV v) = 1"
proof -
  have pos: "0 < vlength v" using assms vlength_nonneg [of v] by simp
  have "vlength (normalizeV v) = \<bar>1 / vlength v\<bar> * vlength v"
    using assms by (simp add: normalizeV_def divideScalar_def vlength_multiplyScalar)
  then show ?thesis using pos by simp
qed

lemma normalizeV_unit: "vlength v = 1 \<Longrightarrow> normalizeV v = v"
  by (simp add: normalizeV_def divideScalar_def multiplyScalar_def)

lemma normalizeV_zero: "vlength v = 0 \<Longrightarrow> normalizeV v = v"
  by (simp add: normalizeV_def divideScalar_def multiplyScalar_def)

lemma dot_multiplyScalar_left: "dot (multiplyScalar a s) b = s * dot a b"
  by (simp add: dot_def multiplyScalar_def algebra_simps)

lemma dot_cross_left: "dot (crossVectors a b) a = 0"
  by (simp add: dot_def crossVectors_def algebra_simps)

lemma dot_cross_right: "dot (crossVectors a b) b = 0"
  by (simp add: dot_def crossVectors_def algebra_simps)

lemma dot_self: "dot a a = lengthSq a"
  by (simp add: dot_def lengthSq_def)

text \<open>The identity of Lagrange, and the two expansions of a double cross product.\<close>

lemma lengthSq_cross:
  "lengthSq (crossVectors a b) = lengthSq a * lengthSq b - dot a b * dot a b"
  by (simp add: lengthSq_def crossVectors_def dot_def algebra_simps)

lemma cross_cross_right:
  "crossVectors b (crossVectors a b) =
     addV (multiplyScalar a (dot b b)) (multiplyScalar b (- dot a b))"
  by (simp add: crossVectors_def addV_def multiplyScalar_def dot_def algebra_simps)

lemma cross_cross_left:
  "crossVectors (crossVectors a b) a =
     addV (multiplyScalar b (dot a a)) (multiplyScalar a (- dot a b))"
  by (simp add: crossVectors_def addV_def multiplyScalar_def dot_def algebra_simps)

lemma combine_unit: "addV (multiplyScalar a 1) (multiplyScalar b 0) = a"
  by (simp add: addV_def multiplyScalar_def)

lemma dot_normalizeV_left: "dot a b = 0 \<Longrightarrow> dot (normalizeV a) b = 0"
  by (simp add: normalizeV_def divideScalar_def dot_multiplyScalar_left)

lemma vlength_one_lengthSq: "vlength v = 1 \<longleftrightarrow> lengthSq v = 1"
  by (simp add: vlength_def lengthSq_def)

lemma vlength_zero_lengthSq: "vlength v = 0 \<longleftrightarrow> lengthSq v = 0"
proof -
  have "0 \<le> lengthSq v" by (simp add: lengthSq_def)
  then show ?thesis by (simp add: vlength_def lengthSq_def)
qed

lemma cross_unit_orthogonal:
  assumes "vlength a = 1" and "vlength b = 1" and "dot a b = 0"
  shows "vlength (crossVectors a b) = 1"
  using assms by (simp add: vlength_one_lengthSq lengthSq_cross)

lemma applyAxisAngle_zero: "applyAxisAngle v axis 0 = v"
  by (simp add: applyAxisAngle_def)

subsection \<open>The basis of the camera\<close>

lemma rightVector_degenerate:
  assumes "lengthSq (crossVectors tangent worldUp) < 0.001"
  shows "rightVector tangent = \<lparr>vx = 1, vy = 0, vz = 0\<rparr>"
proof -
  have "vlength \<lparr>vx = 1, vy = 0, vz = 0\<rparr> = 1" by (simp add: vlength_def)
  then show ?thesis
    using assms by (simp add: rightVector_def Let_def normalizeV_unit)
qed

lemma nondegenerate_tangent_unit:
  assumes "\<not> lengthSq (crossVectors (normalizeV g) worldUp) < 0.001"
  shows "vlength (normalizeV g) = 1"
proof (cases "vlength g = 0")
  case True
  then have "lengthSq (normalizeV g) = 0"
    by (simp add: normalizeV_zero vlength_zero_lengthSq)
  then have "lengthSq (crossVectors (normalizeV g) worldUp) \<le> 0"
    by (simp add: lengthSq_cross)
  then show ?thesis using assms by simp
next
  case False
  then show ?thesis by (rule vlength_normalizeV)
qed

lemma basis_nondegenerate:
  assumes unit: "vlength tangent = 1"
    and nd: "\<not> lengthSq (crossVectors tangent worldUp) < 0.001"
  shows "vlength (rightVector tangent) = 1"
    and "dot (rightVector tangent) tangent = 0"
    and "baseUpVector tangent = crossVectors (rightVector tangent) tangent"
    and "vlength (baseUpVector tangent) = 1"
proof -
  have r: "rightVector tangent = normalizeV (crossVectors tangent worldUp)"
    using nd by (simp add: rightVector_def Let_def)
  have "lengthSq (crossVectors tangent worldUp) \<noteq> 0" using nd by auto
  then have "vlength (crossVectors tangent worldUp) \<noteq> 0"
    by (simp add: vlength_zero_lengthSq)
  then show r1: "vlength (rightVector tangent) = 1"
    unfolding r by (rule vlength_normalizeV)
  show r2: "dot (rightVector tangent) tangent = 0"
    unfolding r by (rule dot_normalizeV_left) (rule dot_cross_left)
  have "vlength (crossVectors (rightVector tangent) tangent) = 1"
    using r1 unit r2 by (rule cross_unit_orthogonal)
  then show b: "baseUpVector tangent = crossVectors (rightVector tangent) tangent"
    by (simp add: baseUpVector_def normalizeV_unit)
  show "vlength (baseUpVector tangent) = 1"
    unfolding b by fact
qed

text \<open>
  C6: when \<open>tangent x worldUp\<close> is not near zero (its squared length is at least 0.001),
  the tangent, \<open>right\<close> and \<open>baseUp\<close> are unit vectors, orthogonal to each other, with
  \<open>right x tangent = baseUp\<close>, \<open>tangent x baseUp = right\<close> and \<open>baseUp x right = tangent\<close>
  (a right-handed frame), and \<open>upVector\<close> before tilt (a tilt of 0) is \<open>baseUp\<close>; when the
  cross product is near zero, \<open>right\<close> is the fallback \<open>(1, 0, 0)\<close>.
\<close>

theorem orientation_basis:
  "(\<not> lengthSq (crossVectors (normalizeV g) worldUp) < 0.001 \<longrightarrow>
      (let tangent = normalizeV g;
           right = rightVector tangent;
           baseUp = baseUpVector tangent;
           upVector = upVectorAt tangent 0
       in vlength tangent = 1 \<and> vlength right = 1 \<and> vlength baseUp = 1 \<and> upVector = baseUp
          \<and> dot right tangent = 0 \<and> dot baseUp tangent = 0 \<and> dot baseUp right = 0
          \<and> crossVectors right tangent = baseUp
          \<and> crossVectors tangent baseUp = right
          \<and> crossVectors baseUp right = tangent))
   \<and> (lengthSq (crossVectors (normalizeV g) worldUp) < 0.001 \<longrightarrow>
        rightVector (normalizeV g) = \<lparr>vx = 1, vy = 0, vz = 0\<rparr>)"
proof (intro conjI impI)
  assume nd: "\<not> lengthSq (crossVectors (normalizeV g) worldUp) < 0.001"
  define tangent where "tangent = normalizeV g"
  have unit: "vlength tangent = 1"
    unfolding tangent_def using nd by (rule nondegenerate_tangent_unit)
  have nd': "\<not> lengthSq (crossVectors tangent worldUp) < 0.001"
    using nd by (simp add: tangent_def)
  note b = basis_nondegenerate [OF unit nd']
  have tt: "dot tangent tangent = 1" "dot (rightVector tangent) (rightVector tangent) = 1"
    using unit b(1) by (simp_all add: dot_self vlength_one_lengthSq)
  have c1: "crossVectors tangent (baseUpVector tangent) = rightVector tangent"
    unfolding b(3) by (simp add: cross_cross_right tt b(2) combine_unit)
  have c2: "crossVectors (baseUpVector tangent) (rightVector tangent) = tangent"
    unfolding b(3) by (simp add: cross_cross_left tt b(2) combine_unit)
  have d1: "dot (baseUpVector tangent) tangent = 0"
    unfolding b(3) by (rule dot_cross_right)
  have d2: "dot (baseUpVector tangent) (rightVector tangent) = 0"
    unfolding b(3) by (rule dot_cross_left)
  have up: "upVectorAt tangent 0 = baseUpVector tangent"
    by (simp add: upVectorAt_def applyAxisAngle_zero)
  show "let tangent = normalizeV g;
           right = rightVector tangent;
           baseUp = baseUpVector tangent;
           upVector = upVectorAt tangent 0
       in vlength tangent = 1 \<and> vlength right = 1 \<and> vlength baseUp = 1 \<and> upVector = baseUp
          \<and> dot right tangent = 0 \<and> dot baseUp tangent = 0 \<and> dot baseUp right = 0
          \<and> crossVectors right tangent = baseUp
          \<and> crossVectors tangent baseUp = right
          \<and> crossVectors baseUp right = tangent"
    unfolding Let_def tangent_def [symmetric]
    using unit b c1 c2 d1 d2 up by simp
next
  assume "lengthSq (crossVectors (normalizeV g) worldUp) < 0.001"
  then show "rightVector (normalizeV g) = \<lparr>vx = 1, vy = 0, vz = 0\<rparr>"
    by (rule rightVector_degenerate)
qed

theorem orientation_basis_witness:
  "\<not> lengthSq (crossVectors (normalizeV (getTangent flatCurve (1 / 2))) worldUp) < 0.001
   \<and> rightVector (normalizeV (getTangent flatCurve (1 / 2))) = \<lparr>vx = 0, vy = 0, vz = 1\<rparr>
   \<and> baseUpVector (normalizeV (getTangent flatCurve (1 / 2))) = \<lparr>vx = 0, vy = 1, vz = 0\<rparr>
   \<and> upVectorAt (normalizeV (getTangent flatCurve (1 / 2))) 0 = \<lparr>vx = 0, vy = 1, vz = 0\<rparr>
   \<and> vlength (rightVector (normalizeV (getTangent flatCurve (1 / 2)))) = 1
   \<and> vlength (baseUpVector (normalizeV (getTangent flatCurve (1 / 2)))) = 1
   \<and> lengthSq (crossVectors (normalizeV worldUp) worldUp) < 0.001
   \<and> rightVector (normalizeV worldUp) = \<lparr>vx = 1, vy = 0, vz = 0\<rparr>"
proof -
  have t: "normalizeV (getTangent flatCurve (1 / 2)) = \<lparr>vx = 1, vy = 0, vz = 0\<rparr>"
    by (simp add: flatCurve_def normalizeV_def vlength_def divideScalar_def multiplyScalar_def)
  have u: "normalizeV worldUp = worldUp"
    by (simp add: worldUp_def normalizeV_def vlength_def divideScalar_def multiplyScalar_def)
  have c: "crossVectors \<lparr>vx = 1, vy = 0, vz = 0\<rparr> worldUp = \<lparr>vx = 0, vy = 0, vz = 1\<rparr>"
    "crossVectors worldUp worldUp = \<lparr>vx = 0, vy = 0, vz = 0\<rparr>"
    by (simp_all add: crossVectors_def worldUp_def)
  have r: "rightVector \<lparr>vx = 1, vy = 0, vz = 0\<rparr> = \<lparr>vx = 0, vy = 0, vz = 1\<rparr>"
    by (simp add: rightVector_def c lengthSq_def Let_def normalizeV_def vlength_def
          divideScalar_def multiplyScalar_def)
  have b: "crossVectors \<lparr>vx = 0, vy = 0, vz = 1\<rparr> \<lparr>vx = 1, vy = 0, vz = 0\<rparr>
             = \<lparr>vx = 0, vy = 1, vz = 0\<rparr>"
    by (simp add: crossVectors_def)
  have nd: "\<not> lengthSq (crossVectors (normalizeV (getTangent flatCurve (1 / 2))) worldUp) < 0.001"
    by (simp add: t c lengthSq_def)
  have dg: "lengthSq (crossVectors (normalizeV worldUp) worldUp) < 0.001"
    by (simp add: u c lengthSq_def)
  show ?thesis
    using orientation_basis [of "getTangent flatCurve (1 / 2)"] orientation_basis [of worldUp] nd dg
    by (simp add: Let_def t r b)
qed

subsection \<open>Smoothing\<close>

lemma distanceTo_lerp:
  "distanceTo (lerp p v (1 / 4)) v = 3 / 4 * distanceTo p v"
proof -
  have c: "a + (b - a) * (1 / 4) - b = 3 / 4 * (a - b)" for a b :: real
    by (simp add: field_simps)
  have sq: "k * x * (k * x) + k * y * (k * y) + k * z * (k * z) = k * k * (x * x + y * y + z * z)"
    for k x y z :: real
    by (simp add: algebra_simps)
  have "(vx p + (vx v - vx p) * (1 / 4) - vx v) * (vx p + (vx v - vx p) * (1 / 4) - vx v)
        + (vy p + (vy v - vy p) * (1 / 4) - vy v) * (vy p + (vy v - vy p) * (1 / 4) - vy v)
        + (vz p + (vz v - vz p) * (1 / 4) - vz v) * (vz p + (vz v - vz p) * (1 / 4) - vz v)
      = (3 / 4 * (3 / 4)) * ((vx p - vx v) * (vx p - vx v) + (vy p - vy v) * (vy p - vy v)
           + (vz p - vz v) * (vz p - vz v))"
    by (simp only: c sq)
  then have "distanceTo (lerp p v (1 / 4)) v
      = sqrt ((3 / 4 * (3 / 4)) * ((vx p - vx v) * (vx p - vx v) + (vy p - vy v) * (vy p - vy v)
           + (vz p - vz v) * (vz p - vz v)))"
    by (simp only: distanceTo_def lerp_def Vector3.simps)
  also have "\<dots> = 3 / 4 * distanceTo p v"
    by (simp only: real_sqrt_mult distanceTo_def) simp
  finally show ?thesis .
qed

lemma distanceTo_nonneg: "0 \<le> distanceTo a b"
  by (simp add: distanceTo_def)

lemma distanceTo_zero: "distanceTo a b = 0 \<longleftrightarrow> a = b"
proof
  assume "distanceTo a b = 0"
  then have "(vx a - vx b) * (vx a - vx b) + (vy a - vy b) * (vy a - vy b)
           + (vz a - vz b) * (vz a - vz b) = 0"
    by (simp add: distanceTo_def)
  then have "vx a = vx b \<and> vy a = vy b \<and> vz a = vz b"
    by (simp add: add_nonneg_eq_0_iff)
  then show "a = b" by simp
next
  assume "a = b"
  then show "distanceTo a b = 0" by (simp add: distanceTo_def)
qed

lemma distanceTo_pos: "a \<noteq> b \<Longrightarrow> 0 < distanceTo a b"
  using distanceTo_nonneg [of a b] distanceTo_zero [of a b] by simp

lemma lerp_iterate:
  "distanceTo (((\<lambda>q. lerp q v (1 / 4)) ^^ n) p) v = (3 / 4) ^ n * distanceTo p v"
  by (induction n) (simp_all add: distanceTo_lerp)

lemma lerp_converges:
  "(\<lambda>n. distanceTo (((\<lambda>q. lerp q v (1 / 4)) ^^ n) p) v) \<longlonglongrightarrow> 0"
proof -
  have "(\<lambda>n. (3 / 4 :: real) ^ n) \<longlonglongrightarrow> 0"
    by (rule LIMSEQ_realpow_zero) simp_all
  then have "(\<lambda>n. (3 / 4) ^ n * distanceTo p v) \<longlonglongrightarrow> 0"
    by (rule tendsto_mult_left_zero)
  then show ?thesis by (simp only: lerp_iterate)
qed

text \<open>Frames that keep the progress, and so the target pose, fixed.\<close>

lemma previous_after_frames:
  "previousCameraPos ((orientCamera track store curve np ^^ n) w)
     = ((\<lambda>q. lerp q (fst (targetPose track store curve np)) (1 / 4)) ^^ n) (previousCameraPos w)
   \<and> previousLookAt ((orientCamera track store curve np ^^ n) w)
     = ((\<lambda>q. lerp q (snd (targetPose track store curve np)) (1 / 4)) ^^ n) (previousLookAt w)"
  by (induction n) (simp_all add: orientCamera_def smoothPose_def Let_def)

text \<open>
  C7: with the target pose held constant over successive frames, each smoothing step
  \<open>previous := lerp previous target 0.25\<close> multiplies the distance to the target by 0.75,
  so the distance strictly decreases whenever \<open>previous\<close> is not the target, and the
  smoothed pose converges to the target as the number of frames grows.
\<close>

theorem smoothing_converges:
  "(let w' = orientCamera track store curve np w;
        target = targetPose track store curve np
    in distanceTo (previousCameraPos w') (fst target)
         = 0.75 * distanceTo (previousCameraPos w) (fst target)
     \<and> distanceTo (previousLookAt w') (snd target)
         = 0.75 * distanceTo (previousLookAt w) (snd target)
     \<and> (previousCameraPos w \<noteq> fst target \<longrightarrow>
          distanceTo (previousCameraPos w') (fst target)
            < distanceTo (previousCameraPos w) (fst target))
     \<and> (previousLookAt w \<noteq> snd target \<longrightarrow>
          distanceTo (previousLookAt w') (snd target)
            < distanceTo (previousLookAt w) (snd target)))
   \<and> (\<lambda>n. distanceTo (previousCameraPos ((orientCamera track store curve np ^^ n) w))
             (fst (targetPose track store curve np))) \<longlonglongrightarrow> 0
   \<and> (\<lambda>n. distanceTo (previousLookAt ((orientCamera track store curve np ^^ n) w))
             (snd (targetPose track store curve np))) \<longlonglongrightarrow> 0"
proof -
  define target where "target = targetPose track store curve np"
  have one: "previousCameraPos (orientCamera track store curve np w)
               = lerp (previousCameraPos w) (fst target) (1 / 4)"
       "previousLookAt (orientCamera track store curve np w)
               = lerp (previousLookAt w) (snd target) (1 / 4)"
    by (simp_all add: target_def orientCamera_def smoothPose_def Let_def)
  have step: "distanceTo (previousCameraPos (orientCamera track store curve np w)) (fst target)
               = 0.75 * distanceTo (previousCameraPos w) (fst target)
     \<and> distanceTo (previousLookAt (orientCamera track store curve np w)) (snd target)
         = 0.75 * distanceTo (previousLookAt w) (snd target)
     \<and> (previousCameraPos w \<noteq> fst target \<longrightarrow>
          distanceTo (previousCameraPos (orientCamera track store curve np w)) (fst target)
            < distanceTo (previousCameraPos w) (fst target))
     \<and> (previousLookAt w \<noteq> snd target \<longrightarrow>
          distanceTo (previousLookAt (orientCamera track store curve np w)) (snd target)
            < distanceTo (previousLookAt w) (snd target))"
    using distanceTo_pos [of "previousCameraPos w" "fst target"]
      distanceTo_pos [of "previousLookAt w" "snd target"]
    by (simp add: one distanceTo_lerp)
  have lim1: "(\<lambda>n. distanceTo (previousCameraPos ((orientCamera track store curve np ^^ n) w))
                 (fst target)) \<longlonglongrightarrow> 0"
    using lerp_converges [of "fst target" "previousCameraPos w"]
    by (simp only: previous_after_frames target_def)
  have lim2: "(\<lambda>n. distanceTo (previousLookAt ((orientCamera track store curve np ^^ n) w))
                 (snd target)) \<longlonglongrightarrow> 0"
    using lerp_converges [of "snd target" "previousLookAt w"]
    by (simp only: previous_after_frames target_def)
  show ?thesis
    using step lim1 lim2 unfolding target_def Let_def by simp
qed

lemma targetPose_flat:
  "targetPose (fixedTrack flatCurve) (rideAt (1 / 2) False False) flatCurve (1 / 2)
     = (\<lparr>vx = 5, vy = 3 / 2, vz = 0\<rparr>, \<lparr>vx = 53 / 10, vy = 6 / 5, vz = 0\<rparr>)"
  by (simp add: targetPose_def Let_def fixedTrack_def rideAt_def flatCurve_def upVectorAt_def
        applyAxisAngle_def baseUpVector_def rightVector_def crossVectors_def worldUp_def
        lengthSq_def normalizeV_def vlength_def divideScalar_def multiplyScalar_def addV_def
        cameraHeight_def)

theorem smoothing_converges_witness:
  "previousCameraPos (rideStart flatCurve)
     \<noteq> fst (targetPose (fixedTrack flatCurve) (rideAt (1 / 2) False False) flatCurve (1 / 2))
   \<and> previousLookAt (rideStart flatCurve)
     \<noteq> snd (targetPose (fixedTrack flatCurve) (rideAt (1 / 2) False False) flatCurve (1 / 2))
   \<and> distanceTo (previousCameraPos (orientCamera (fixedTrack flatCurve) (rideAt (1 / 2) False False)
          flatCurve (1 / 2) (rideStart flatCurve))) \<lparr>vx = 5, vy = 3 / 2, vz = 0\<rparr>
       < distanceTo origin \<lparr>vx = 5, vy = 3 / 2, vz = 0\<rparr>
   \<and> distanceTo (previousLookAt (orientCamera (fixedTrack flatCurve) (rideAt (1 / 2) False False)
          flatCurve (1 / 2) (rideStart flatCurve))) \<lparr>vx = 53 / 10, vy = 6 / 5, vz = 0\<rparr>
       < distanceTo origin \<lparr>vx = 53 / 10, vy = 6 / 5, vz = 0\<rparr>
   \<and> (\<lambda>n. distanceTo (previousCameraPos ((orientCamera (fixedTrack flatCurve)
          (rideAt (1 / 2) False False) flatCurve (1 / 2) ^^ n) (rideStart flatCurve)))
          \<lparr>vx = 5, vy = 3 / 2, vz = 0\<rparr>) \<longlonglongrightarrow> 0"
proof -
  have ne: "previousCameraPos (rideStart flatCurve) \<noteq> \<lparr>vx = 5, vy = 3 / 2, vz = 0\<rparr>"
    "previousLookAt (rideStart flatCurve) \<noteq> \<lparr>vx = 53 / 10, vy = 6 / 5, vz = 0\<rparr>"
    by (simp_all add: rideStart_def origin_def)
  have start: "previousCameraPos (rideStart flatCurve) = origin"
    "previousLookAt (rideStart flatCurve) = origin"
    by (simp_all add: rideStart_def)
  show ?thesis
    using smoothing_converges [of "fixedTrack flatCurve" "rideAt (1 / 2) False False" flatCurve
        "1 / 2" "rideStart flatCurve", unfolded targetPose_flat Let_def] ne
    by (simp add: targetPose_flat start)
qed

end
